theory Spec2Isabelle
  imports Complex_Main "HOL-Library.Word"
begin

section \<open>Conventions of the embedding\<close>

text \<open>
  The two programs of the repository are \<^verbatim>\<open>cellular_city_sim.cc\<close> (one cell; its
  definitions carry the prefix \<open>sc_\<close>) and \<^verbatim>\<open>cellular_city_multicell_sim.cc\<close> (several
  cells; prefix \<open>mc_\<close>). Both are a single \<^verbatim>\<open>main\<close>; each stage of \<^verbatim>\<open>main\<close> is a
  function here, and the radio simulation of ns-3 between the set-up and the statistics
  is a parameter.

  \<^item> \<^verbatim>\<open>uint16_t\<close>, \<^verbatim>\<open>uint32_t\<close> and \<^verbatim>\<open>uint64_t\<close> are \<open>16 word\<close>, \<open>32 word\<close> and
    \<open>64 word\<close>: \<open>+\<close> wraps around, \<open>unat\<close> reads the value.
  \<^item> \<^verbatim>\<open>double\<close> is \<open>real\<close>. In the statistics and in the traffic set-up the
    arithmetic is exact and rounding is not modelled. The placement of the base stations
    takes the arithmetic as a parameter \<open>rnd\<close>, applied to the result of every
    \<^verbatim>\<open>double\<close> operation: \<open>b64\<close> below rounds as IEEE 754 binary64 does, the identity
    gives exact arithmetic. A \<^verbatim>\<open>double\<close> division by zero does not trap in C++, it
    gives an infinity or a NaN; \<open>ddiv\<close> returns \<open>None\<close> there, so a \<open>real option\<close> is a
    \<^verbatim>\<open>double\<close> that may not be a finite number.
  \<^item> An integer division by zero is undefined behaviour in C++: the model returns the
    error \<open>DivideByZero\<close> in its place.
\<close>

type_synonym uint16_t = "16 word"
type_synonym uint32_t = "32 word"
type_synonym uint64_t = "64 word"

definition ddiv :: "real \<Rightarrow> real \<Rightarrow> real option" where
  "ddiv a b = (if b = 0 then None else Some (a / b))"

definition dscale :: "real option \<Rightarrow> real \<Rightarrow> real option" where
  "dscale a k = map_option (\<lambda>v. v * k) a"

subsection \<open>Rounding to binary64\<close>

text \<open>
  Round to nearest, ties to even: \<open>round_even\<close> on the integers, and \<open>b64\<close> on the grid of
  the binary64 numbers around \<open>x\<close>, whose step is \<open>2 ^ (e - 52)\<close> for \<open>2 ^ e \<le> \<bar>x\<bar> < 2 ^ (e + 1)\<close>
  and \<open>2 ^ - 1074\<close> below \<open>2 ^ - 1022\<close> (the subnormal numbers). Binary64 turns magnitudes
  from \<open>2 ^ 1024\<close> on into an infinity; \<open>b64\<close> has no such limit. The placement does not
  come near it for a finite side of the area: every value that it rounds is, up to the
  rounding, the side times a fraction between 0 and 1.
\<close>

definition round_even :: "real \<Rightarrow> int" where
  "round_even y =
     (let f = \<lfloor>y\<rfloor>; d = y - of_int f
      in if d < 1 / 2 then f else if 1 / 2 < d then f + 1 else if even f then f else f + 1)"

definition b64 :: "real \<Rightarrow> real" where
  "b64 x =
     (if x = 0 then 0
      else
        (let e = max \<lfloor>log 2 \<bar>x\<bar>\<rfloor> (- 1022);
             ulp = 2 powr (of_int e - 52)
         in of_int (round_even (x / ulp)) * ulp))"

text \<open>The smallest positive binary64 number, about \<open>4.94e-324\<close> (written \<^verbatim>\<open>5e-324\<close>).\<close>

definition min_subnormal :: real where
  "min_subnormal = 1 / 2 ^ 1074"

subsection \<open>Loop counters\<close>

text \<open>
  A loop counter below its bound does not wrap when it is incremented; the termination
  of every counting loop below rests on this.
\<close>

lemma unat_succ_less:
  fixes i n :: "'a::len word"
  assumes "i < n"
  shows "unat (i + 1) = unat i + 1"
proof -
  have "unat i < unat n"
    using assms by (simp add: word_less_nat_alt)
  moreover have "unat n < 2 ^ LENGTH('a)"
    by (rule unsigned_less)
  ultimately have "unat i + 1 < 2 ^ LENGTH('a)"
    by linarith
  then show ?thesis
    by (simp add: unat_word_ariths)
qed

section \<open>Flow statistics\<close>

text \<open>
  Modelled from the spec: the declaration of \<^verbatim>\<open>FlowMonitor::FlowStats\<close> belongs to ns-3
  and is not in the repository. The fields that \<^verbatim>\<open>main\<close> reads are the packets
  received, the bytes received, the packets lost and the two cumulative times; the
  counters are natural numbers (no width is assumed for them), the times are the
  seconds that \<^verbatim>\<open>GetSeconds()\<close> returns.
\<close>

record FlowStats =
  rxPackets :: nat
  rxBytes :: nat
  lostPackets :: nat
  delaySum :: real
  jitterSum :: real

type_synonym FlowId = nat

text \<open>The five accumulators that \<^verbatim>\<open>main\<close> declares before the loop over the flows.\<close>

record totals =
  totalDelay :: real
  totalJitter :: real
  totalRxPackets :: uint64_t
  totalRxBytes :: uint64_t
  totalLostPackets :: uint64_t

definition totals_init :: totals where
  "totals_init = \<lparr>totalDelay = 0, totalJitter = 0, totalRxPackets = 0,
     totalRxBytes = 0, totalLostPackets = 0\<rparr>"

text \<open>What \<^verbatim>\<open>main\<close> prints after the loop (the lines of the summary that it computes).\<close>

record AggregateReport =
  meanDelayMs :: "real option"
  jitterMs :: "real option"
  throughputMbps :: "real option"
  lossRatePct :: "real option"
  rxTotal :: uint64_t
  lostTotal :: uint64_t

subsection \<open>The multi-cell program\<close>

text \<open>
  The loop \<^verbatim>\<open>for (auto const &flow : stats)\<close> over the \<^verbatim>\<open>std::map\<close> of the flows, in
  the order of the keys. The list is that sequence of pairs; \<^verbatim>\<open>flow.second\<close> is
  \<open>snd flow\<close>. The body first computes the two numbers of the flow's log line
  (\<^verbatim>\<open>NS_LOG_INFO\<close>), which touch no accumulator: they are \<open>mc_flow_line\<close>, and the
  loop over the accumulators is \<open>mc_flow_loop\<close>.
\<close>

definition mc_flow_line :: "FlowStats \<Rightarrow> real \<Rightarrow> real option \<times> real option" where
  "mc_flow_line fs simTime =
     (let throughputMbps = ddiv (real (rxBytes fs) * 8) (simTime * 1000000);
          meanDelayMs =
            (if 0 < rxPackets fs
             then dscale (ddiv (delaySum fs) (real (rxPackets fs))) 1000
             else Some 0)
      in (throughputMbps, meanDelayMs))"

fun mc_flow_loop :: "(FlowId \<times> FlowStats) list \<Rightarrow> totals \<Rightarrow> totals" where
  "mc_flow_loop [] t = t"
| "mc_flow_loop (flow # rest) t =
     (let fs = snd flow;
          t1 = t\<lparr>totalDelay := totalDelay t + delaySum fs\<rparr>;
          t2 = (if 1 < rxPackets fs
                then t1\<lparr>totalJitter := totalJitter t1 + jitterSum fs\<rparr>
                else t1);
          t3 = t2\<lparr>totalRxPackets := totalRxPackets t2 + word_of_nat (rxPackets fs)\<rparr>;
          t4 = t3\<lparr>totalRxBytes := totalRxBytes t3 + word_of_nat (rxBytes fs)\<rparr>;
          t5 = t4\<lparr>totalLostPackets := totalLostPackets t4 + word_of_nat (lostPackets fs)\<rparr>
      in mc_flow_loop rest t5)"

text \<open>
  The guarded formulas after the loop. The four results start at \<open>0.0\<close>; the first
  three are assigned only under \<^verbatim>\<open>totalRxPackets > 0\<close>, the loss rate only under
  \<^verbatim>\<open>totalOfferedPackets > 0\<close>.
\<close>

definition mc_metrics :: "totals \<Rightarrow> real \<Rightarrow> AggregateReport" where
  "mc_metrics t simTime =
     (let (meanDelayMs0, jitterMs0, throughputMbps0) =
            (if 0 < totalRxPackets t then
               (let meanDelay = ddiv (totalDelay t) (real (unat (totalRxPackets t)));
                    meanJitter =
                      (if 1 < totalRxPackets t
                       then ddiv (totalJitter t) (real (unat (totalRxPackets t - 1)))
                       else Some 0)
                in (dscale meanDelay 1000, dscale meanJitter 1000,
                    ddiv (real (unat (totalRxBytes t)) * 8) (simTime * 1000000)))
             else (Some 0, Some 0, Some 0));
          totalOfferedPackets = totalRxPackets t + totalLostPackets t;
          lossRatePct0 =
            (if 0 < totalOfferedPackets
             then ddiv (real (unat (totalLostPackets t)) * 100) (real (unat totalOfferedPackets))
             else Some 0)
      in \<lparr>meanDelayMs = meanDelayMs0, jitterMs = jitterMs0,
          throughputMbps = throughputMbps0, lossRatePct = lossRatePct0,
          rxTotal = totalRxPackets t, lostTotal = totalLostPackets t\<rparr>)"

definition mc_aggregate :: "(FlowId \<times> FlowStats) list \<Rightarrow> real \<Rightarrow> AggregateReport" where
  "mc_aggregate stats simTime = mc_metrics (mc_flow_loop stats totals_init) simTime"

subsection \<open>The single-cell program\<close>

text \<open>The same stage of \<^verbatim>\<open>cellular_city_sim.cc\<close>, translated from that file.\<close>

definition sc_flow_line :: "FlowStats \<Rightarrow> real \<Rightarrow> real option \<times> real option" where
  "sc_flow_line fs simTime =
     (let throughputMbps = ddiv (real (rxBytes fs) * 8) (simTime * 1000000);
          meanDelayMs =
            (if 0 < rxPackets fs
             then dscale (ddiv (delaySum fs) (real (rxPackets fs))) 1000
             else Some 0)
      in (throughputMbps, meanDelayMs))"

fun sc_flow_loop :: "(FlowId \<times> FlowStats) list \<Rightarrow> totals \<Rightarrow> totals" where
  "sc_flow_loop [] t = t"
| "sc_flow_loop (flow # rest) t =
     (let fs = snd flow;
          t1 = t\<lparr>totalDelay := totalDelay t + delaySum fs\<rparr>;
          t2 = (if 1 < rxPackets fs
                then t1\<lparr>totalJitter := totalJitter t1 + jitterSum fs\<rparr>
                else t1);
          t3 = t2\<lparr>totalRxPackets := totalRxPackets t2 + word_of_nat (rxPackets fs)\<rparr>;
          t4 = t3\<lparr>totalRxBytes := totalRxBytes t3 + word_of_nat (rxBytes fs)\<rparr>;
          t5 = t4\<lparr>totalLostPackets := totalLostPackets t4 + word_of_nat (lostPackets fs)\<rparr>
      in sc_flow_loop rest t5)"

definition sc_metrics :: "totals \<Rightarrow> real \<Rightarrow> AggregateReport" where
  "sc_metrics t simTime =
     (let (meanDelayMs0, jitterMs0, throughputMbps0) =
            (if 0 < totalRxPackets t then
               (let meanDelay = ddiv (totalDelay t) (real (unat (totalRxPackets t)));
                    meanJitter =
                      (if 1 < totalRxPackets t
                       then ddiv (totalJitter t) (real (unat (totalRxPackets t - 1)))
                       else Some 0)
                in (dscale meanDelay 1000, dscale meanJitter 1000,
                    ddiv (real (unat (totalRxBytes t)) * 8) (simTime * 1000000)))
             else (Some 0, Some 0, Some 0));
          totalOfferedPackets = totalRxPackets t + totalLostPackets t;
          lossRatePct0 =
            (if 0 < totalOfferedPackets
             then ddiv (real (unat (totalLostPackets t)) * 100) (real (unat totalOfferedPackets))
             else Some 0)
      in \<lparr>meanDelayMs = meanDelayMs0, jitterMs = jitterMs0,
          throughputMbps = throughputMbps0, lossRatePct = lossRatePct0,
          rxTotal = totalRxPackets t, lostTotal = totalLostPackets t\<rparr>)"

definition sc_aggregate :: "(FlowId \<times> FlowStats) list \<Rightarrow> real \<Rightarrow> AggregateReport" where
  "sc_aggregate stats simTime = sc_metrics (sc_flow_loop stats totals_init) simTime"

subsection \<open>The sums of the specification\<close>

text \<open>
  The quantities that the specification's formulas are written in: plain sums over the
  flows, in the natural numbers and the reals. The jitter sum leaves out every flow
  that received at most one packet; the delay sum leaves out no flow.
\<close>

definition sumRxPackets :: "(FlowId \<times> FlowStats) list \<Rightarrow> nat" where
  "sumRxPackets stats = sum_list (map (\<lambda>flow. rxPackets (snd flow)) stats)"

definition sumRxBytes :: "(FlowId \<times> FlowStats) list \<Rightarrow> nat" where
  "sumRxBytes stats = sum_list (map (\<lambda>flow. rxBytes (snd flow)) stats)"

definition sumLost :: "(FlowId \<times> FlowStats) list \<Rightarrow> nat" where
  "sumLost stats = sum_list (map (\<lambda>flow. lostPackets (snd flow)) stats)"

definition sumDelay :: "(FlowId \<times> FlowStats) list \<Rightarrow> real" where
  "sumDelay stats = sum_list (map (\<lambda>flow. delaySum (snd flow)) stats)"

definition sumJitter :: "(FlowId \<times> FlowStats) list \<Rightarrow> real" where
  "sumJitter stats =
     sum_list (map (\<lambda>flow. jitterSum (snd flow)) (filter (\<lambda>flow. 1 < rxPackets (snd flow)) stats))"

text \<open>The two-flow example of the specification (flow A and flow B), and a lone flow.\<close>

definition flowA :: FlowStats where
  "flowA = \<lparr>rxPackets = 10, rxBytes = 2000, lostPackets = 2, delaySum = 1, jitterSum = 2 / 10\<rparr>"

definition flowB :: FlowStats where
  "flowB = \<lparr>rxPackets = 5, rxBytes = 1000, lostPackets = 0, delaySum = 3 / 10, jitterSum = 5 / 100\<rparr>"

definition two_flows :: "(FlowId \<times> FlowStats) list" where
  "two_flows = [(1, flowA), (2, flowB)]"

text \<open>
  Further inputs: the specification's flow with a single packet (it is given a jitter
  sum, which the loop has to leave out), a flow that lost every packet, a record with
  bytes and no packet, and an all-zero record.
\<close>

definition single_packet_flow :: FlowStats where
  "single_packet_flow =
     \<lparr>rxPackets = 1, rxBytes = 100, lostPackets = 0, delaySum = 5 / 100, jitterSum = 3 / 100\<rparr>"

definition all_lost_flow :: FlowStats where
  "all_lost_flow = \<lparr>rxPackets = 0, rxBytes = 0, lostPackets = 5, delaySum = 0, jitterSum = 0\<rparr>"

definition bytes_only_flow :: FlowStats where
  "bytes_only_flow = \<lparr>rxPackets = 0, rxBytes = 500, lostPackets = 0, delaySum = 0, jitterSum = 0\<rparr>"

definition all_zero_flow :: FlowStats where
  "all_zero_flow = \<lparr>rxPackets = 0, rxBytes = 0, lostPackets = 0, delaySum = 0, jitterSum = 0\<rparr>"

definition single_packet_run :: "(FlowId \<times> FlowStats) list" where
  "single_packet_run = [(1, single_packet_flow)]"

definition all_lost_run :: "(FlowId \<times> FlowStats) list" where
  "all_lost_run = [(1, all_lost_flow)]"

definition bytes_only_run :: "(FlowId \<times> FlowStats) list" where
  "bytes_only_run = [(1, bytes_only_flow)]"

definition all_zero_run :: "(FlowId \<times> FlowStats) list" where
  "all_zero_run = [(1, all_zero_flow)]"

section \<open>Technology profile\<close>

text \<open>
  \<^verbatim>\<open>NS_ABORT_MSG\<close> ends the process; \<^verbatim>\<open>main\<close> then returns no report. The two ways a
  run can end without a report are the values of \<open>abort\<close>.
\<close>

datatype abort = InvalidTech | DivideByZero

record LteBandwidth =
  DlBandwidth :: nat
  UlBandwidth :: nat

record P2pLink =
  DataRate :: string
  Delay :: string

subsection \<open>The multi-cell program\<close>

text \<open>The first test of \<^verbatim>\<open>tech\<close>: the bandwidth of the cells in resource blocks, or the abort.\<close>

definition mc_set_bandwidth :: "string \<Rightarrow> abort + LteBandwidth" where
  "mc_set_bandwidth tech =
     (if tech = ''4g'' then Inr \<lparr>DlBandwidth = 50, UlBandwidth = 50\<rparr>
      else if tech = ''5g'' then Inr \<lparr>DlBandwidth = 100, UlBandwidth = 100\<rparr>
      else Inl InvalidTech)"

text \<open>
  The second test of \<^verbatim>\<open>tech\<close>, for the link between the packet gateway and the remote
  host: its \<^verbatim>\<open>else\<close> branch takes every value that is not \<^verbatim>\<open>"4g"\<close>.
\<close>

definition mc_p2p_link :: "string \<Rightarrow> P2pLink" where
  "mc_p2p_link tech =
     (if tech = ''4g'' then \<lparr>DataRate = ''10Gbps'', Delay = ''10ms''\<rparr>
      else \<lparr>DataRate = ''10Gbps'', Delay = ''2ms''\<rparr>)"

subsection \<open>The single-cell program\<close>

definition sc_set_bandwidth :: "string \<Rightarrow> abort + LteBandwidth" where
  "sc_set_bandwidth tech =
     (if tech = ''4g'' then Inr \<lparr>DlBandwidth = 50, UlBandwidth = 50\<rparr>
      else if tech = ''5g'' then Inr \<lparr>DlBandwidth = 100, UlBandwidth = 100\<rparr>
      else Inl InvalidTech)"

definition sc_p2p_link :: "string \<Rightarrow> P2pLink" where
  "sc_p2p_link tech =
     (if tech = ''4g'' then \<lparr>DataRate = ''10Gbps'', Delay = ''10ms''\<rparr>
      else \<lparr>DataRate = ''10Gbps'', Delay = ''2ms''\<rparr>)"

section \<open>Placement of the base stations\<close>

text \<open>\<^verbatim>\<open>ns3::Vector\<close>: three \<^verbatim>\<open>double\<close> coordinates.\<close>

datatype Vector = Vector (vx: real) (vy: real) (vz: real)

subsection \<open>The multi-cell program\<close>

text \<open>
  \<^verbatim>\<open>uint16_t nRows = std::floor(std::sqrt(nEnbs)); if (nRows == 0) nRows = 1;\<close>
  The square root and its floor are computed in \<^verbatim>\<open>double\<close>; the conversion back to
  \<^verbatim>\<open>uint16_t\<close> is \<open>word_of_int\<close>.
\<close>

definition mc_nRows :: "uint16_t \<Rightarrow> uint16_t" where
  "mc_nRows nEnbs =
     (let nRows = (word_of_int \<lfloor>sqrt (real (unat nEnbs))\<rfloor> :: uint16_t)
      in if nRows = 0 then 1 else nRows)"

text \<open>\<^verbatim>\<open>uint16_t nCols = std::ceil(static_cast<double>(nEnbs) / nRows);\<close>\<close>

definition mc_nCols :: "uint16_t \<Rightarrow> uint16_t \<Rightarrow> uint16_t" where
  "mc_nCols nEnbs nRows = word_of_int \<lceil>real (unat nEnbs) / real (unat nRows)\<rceil>"

text \<open>
  The loop \<^verbatim>\<open>for (uint16_t i = 0; i < nEnbs; ++i)\<close>. \<open>enbNodes\<close> holds the position of
  every node of the container; \<^verbatim>\<open>SetPosition\<close> on node \<open>i\<close> is the update at index
  \<open>i\<close>. In \<^verbatim>\<open>i / nCols\<close> and \<^verbatim>\<open>i % nCols\<close> both operands are promoted to \<^verbatim>\<open>int\<close> and
  the result goes back to \<^verbatim>\<open>uint16_t\<close>, which is the division of \<open>16 word\<close>; a zero
  divisor is the error. \<^verbatim>\<open>col + 1\<close> and \<^verbatim>\<open>row + 1\<close> are \<^verbatim>\<open>int\<close>, do not wrap and
  convert to \<^verbatim>\<open>double\<close> exactly. In \<^verbatim>\<open>-half + (col + 1) * dx\<close> the product and the sum
  are one \<^verbatim>\<open>double\<close> operation each, so each is under \<open>rnd\<close>; the negation is exact.
\<close>

function mc_enb_loop_rnd ::
  "(real \<Rightarrow> real) \<Rightarrow> uint16_t \<Rightarrow> uint16_t \<Rightarrow> real \<Rightarrow> real \<Rightarrow> real \<Rightarrow> uint16_t \<Rightarrow> Vector list
   \<Rightarrow> abort + Vector list" where
  "mc_enb_loop_rnd rnd nEnbs nCols half dx dy i enbNodes =
     (if i < nEnbs then
        (if nCols = 0 then Inl DivideByZero
         else
           (let row = i div nCols;
                col = i mod nCols;
                x = rnd (- half + rnd ((real (unat col) + 1) * dx));
                y = rnd (- half + rnd ((real (unat row) + 1) * dy));
                z = 30
            in mc_enb_loop_rnd rnd nEnbs nCols half dx dy (i + 1)
                 (enbNodes[unat i := Vector x y z])))
      else Inr enbNodes)"
  by pat_completeness auto
termination
proof (relation "measure (\<lambda>(rnd, nEnbs, nCols, half, dx, dy, i, enbNodes). unat nEnbs - unat i)")
  show "wf (measure (\<lambda>(rnd, nEnbs, nCols, half, dx, dy, i, enbNodes). unat nEnbs - unat i))"
    by simp
next
  fix rnd :: "real \<Rightarrow> real" and nEnbs nCols :: uint16_t and half dx dy :: real
    and i :: uint16_t and enbNodes :: "Vector list" and row col :: uint16_t and x y z :: real
  assume "i < nEnbs"
  then have "unat i < unat nEnbs"
    by (simp add: word_less_nat_alt)
  moreover have "unat (i + 1) = unat i + 1"
    using \<open>i < nEnbs\<close> by (rule unat_succ_less)
  ultimately show "((rnd, nEnbs, nCols, half, dx, dy, i + 1, enbNodes[unat i := Vector x y z]),
      (rnd, nEnbs, nCols, half, dx, dy, i, enbNodes))
    \<in> measure (\<lambda>(rnd, nEnbs, nCols, half, dx, dy, i, enbNodes). unat nEnbs - unat i)"
    by simp
qed

declare mc_enb_loop_rnd.simps [simp del]

text \<open>
  The stage as a whole. \<^verbatim>\<open>enbNodes.Create(nEnbs)\<close> makes the nodes, whose positions
  start at the origin; the spacings divide by \<^verbatim>\<open>nCols + 1\<close> and \<^verbatim>\<open>nRows + 1\<close>, sums
  in \<^verbatim>\<open>int\<close> that are at least 1; the three quotients are \<^verbatim>\<open>double\<close> operations.
\<close>

definition mc_place_enbs_rnd :: "(real \<Rightarrow> real) \<Rightarrow> uint16_t \<Rightarrow> real \<Rightarrow> abort + Vector list" where
  "mc_place_enbs_rnd rnd nEnbs areaSize =
     (let enbNodes = replicate (unat nEnbs) (Vector 0 0 0);
          nRows = mc_nRows nEnbs;
          nCols = mc_nCols nEnbs nRows;
          half = rnd (areaSize / 2);
          dx = rnd (areaSize / (real (unat nCols) + 1));
          dy = rnd (areaSize / (real (unat nRows) + 1))
      in mc_enb_loop_rnd rnd nEnbs nCols half dx dy 0 enbNodes)"

text \<open>
  The placement as the program computes it, in binary64, and the placement in exact
  arithmetic, which is what the formulas of the specification say.
\<close>

definition mc_place_enbs_b64 :: "uint16_t \<Rightarrow> real \<Rightarrow> abort + Vector list" where
  "mc_place_enbs_b64 nEnbs areaSize = mc_place_enbs_rnd b64 nEnbs areaSize"


subsection \<open>The single-cell program\<close>

text \<open>One node, set to \<^verbatim>\<open>Vector(0.0, 0.0, 30.0)\<close>.\<close>

definition sc_place_enbs :: "Vector list" where
  "sc_place_enbs = (replicate 1 (Vector 0 0 0))[0 := Vector 0 0 30]"

subsection \<open>The grid of the specification\<close>

text \<open>
  The specification's formulas over the natural numbers: the number of rows and of
  columns for \<open>N\<close> stations, and the place of station \<open>i\<close> in a square of side \<open>A\<close>.
\<close>

definition grid_rows :: "nat \<Rightarrow> nat" where
  "grid_rows N = max 1 (nat \<lfloor>sqrt (real N)\<rfloor>)"

definition grid_cols :: "nat \<Rightarrow> nat" where
  "grid_cols N = nat \<lceil>real N / real (grid_rows N)\<rceil>"


definition inside_square :: "real \<Rightarrow> Vector \<Rightarrow> bool" where
  "inside_square A p = (- A / 2 < vx p \<and> vx p < A / 2 \<and> - A / 2 < vy p \<and> vy p < A / 2)"

text \<open>
  The same formulas with every operation under \<open>rnd\<close>, in the order in which the
  program computes them: a coordinate from the index \<open>k\<close> along an axis with \<open>m\<close> cells,
  and the place of station \<open>i\<close>.
\<close>

definition rnd_coord :: "(real \<Rightarrow> real) \<Rightarrow> real \<Rightarrow> nat \<Rightarrow> nat \<Rightarrow> real" where
  "rnd_coord rnd A k m = rnd (- rnd (A / 2) + rnd ((real k + 1) * rnd (A / (real m + 1))))"

definition rnd_station :: "(real \<Rightarrow> real) \<Rightarrow> nat \<Rightarrow> real \<Rightarrow> nat \<Rightarrow> Vector" where
  "rnd_station rnd N A i =
     Vector (rnd_coord rnd A (i mod grid_cols N) (grid_cols N))
            (rnd_coord rnd A (i div grid_cols N) (grid_rows N))
            30"

section \<open>Traffic\<close>

text \<open>
  One \<^verbatim>\<open>UdpClient\<close> application as \<^verbatim>\<open>main\<close> configures it: the node it is installed
  on (an index into \<^verbatim>\<open>ueNodes\<close>), the port of the server, the three attributes that are
  set, and the start and stop times of the application (zero until \<^verbatim>\<open>Start\<close> and
  \<^verbatim>\<open>Stop\<close> set them).
\<close>

record UdpClientApp =
  node :: nat
  remotePort :: uint16_t
  MaxPackets :: uint32_t
  Interval :: real
  PacketSize :: uint32_t
  startTime :: real
  stopTime :: real

subsection \<open>The multi-cell program\<close>

text \<open>
  The loop \<^verbatim>\<open>for (uint32_t i = 0; i < nUes; ++i)\<close>: a client with the three attributes
  is installed on node \<open>i\<close> and added at the end of \<^verbatim>\<open>clientApps\<close>.
\<close>

function mc_client_loop ::
  "uint32_t \<Rightarrow> uint16_t \<Rightarrow> real \<Rightarrow> uint32_t \<Rightarrow> uint32_t \<Rightarrow> UdpClientApp list \<Rightarrow> UdpClientApp list" where
  "mc_client_loop nUes dlPort packetInterval packetSize i clientApps =
     (if i < nUes then
        mc_client_loop nUes dlPort packetInterval packetSize (i + 1)
          (clientApps @ [\<lparr>node = unat i, remotePort = dlPort, MaxPackets = 0xFFFFFFFF,
             Interval = packetInterval, PacketSize = packetSize, startTime = 0, stopTime = 0\<rparr>])
      else clientApps)"
  by pat_completeness auto
termination
proof (relation "measure (\<lambda>(nUes, dlPort, packetInterval, packetSize, i, clientApps). unat nUes - unat i)")
  show "wf (measure (\<lambda>(nUes, dlPort, packetInterval, packetSize, i, clientApps). unat nUes - unat i))"
    by simp
next
  fix nUes :: uint32_t and dlPort :: uint16_t and packetInterval :: real
    and packetSize i :: uint32_t and clientApps :: "UdpClientApp list"
  assume "i < nUes"
  then have "unat i < unat nUes"
    by (simp add: word_less_nat_alt)
  moreover have "unat (i + 1) = unat i + 1"
    using \<open>i < nUes\<close> by (rule unat_succ_less)
  ultimately show "((nUes, dlPort, packetInterval, packetSize, i + 1,
        clientApps @ [\<lparr>node = unat i, remotePort = dlPort, MaxPackets = 0xFFFFFFFF,
          Interval = packetInterval, PacketSize = packetSize, startTime = 0, stopTime = 0\<rparr>]),
      (nUes, dlPort, packetInterval, packetSize, i, clientApps))
    \<in> measure (\<lambda>(nUes, dlPort, packetInterval, packetSize, i, clientApps). unat nUes - unat i)"
    by simp
qed

declare mc_client_loop.simps [simp del]

text \<open>
  \<^verbatim>\<open>packetInterval = 0.02\<close>, \<^verbatim>\<open>packetSize = 200\<close>; after the loop
  \<^verbatim>\<open>clientApps.Start(Seconds(0.5))\<close> and \<^verbatim>\<open>clientApps.Stop(Seconds(simTime))\<close> set the
  times of every application of the container.
\<close>

definition mc_clients :: "uint32_t \<Rightarrow> real \<Rightarrow> UdpClientApp list" where
  "mc_clients nUes simTime =
     (let dlPort = 1234;
          packetInterval = 2 / 100;
          packetSize = 200;
          clientApps = mc_client_loop nUes dlPort packetInterval packetSize 0 [];
          started = map (\<lambda>app. app\<lparr>startTime := 5 / 10\<rparr>) clientApps
      in map (\<lambda>app. app\<lparr>stopTime := simTime\<rparr>) started)"

subsection \<open>The single-cell program\<close>

text \<open>
  The same loop with a counter and a bound of type \<^verbatim>\<open>uint16_t\<close>, and
  \<^verbatim>\<open>packetInterval = 0.1\<close>.
\<close>

function sc_client_loop ::
  "uint16_t \<Rightarrow> uint16_t \<Rightarrow> real \<Rightarrow> uint32_t \<Rightarrow> uint16_t \<Rightarrow> UdpClientApp list \<Rightarrow> UdpClientApp list" where
  "sc_client_loop nUes dlPort packetInterval packetSize i clientApps =
     (if i < nUes then
        sc_client_loop nUes dlPort packetInterval packetSize (i + 1)
          (clientApps @ [\<lparr>node = unat i, remotePort = dlPort, MaxPackets = 0xFFFFFFFF,
             Interval = packetInterval, PacketSize = packetSize, startTime = 0, stopTime = 0\<rparr>])
      else clientApps)"
  by pat_completeness auto
termination
proof (relation "measure (\<lambda>(nUes, dlPort, packetInterval, packetSize, i, clientApps). unat nUes - unat i)")
  show "wf (measure (\<lambda>(nUes, dlPort, packetInterval, packetSize, i, clientApps). unat nUes - unat i))"
    by simp
next
  fix nUes dlPort :: uint16_t and packetInterval :: real
    and packetSize :: uint32_t and i :: uint16_t and clientApps :: "UdpClientApp list"
  assume "i < nUes"
  then have "unat i < unat nUes"
    by (simp add: word_less_nat_alt)
  moreover have "unat (i + 1) = unat i + 1"
    using \<open>i < nUes\<close> by (rule unat_succ_less)
  ultimately show "((nUes, dlPort, packetInterval, packetSize, i + 1,
        clientApps @ [\<lparr>node = unat i, remotePort = dlPort, MaxPackets = 0xFFFFFFFF,
          Interval = packetInterval, PacketSize = packetSize, startTime = 0, stopTime = 0\<rparr>]),
      (nUes, dlPort, packetInterval, packetSize, i, clientApps))
    \<in> measure (\<lambda>(nUes, dlPort, packetInterval, packetSize, i, clientApps). unat nUes - unat i)"
    by simp
qed

declare sc_client_loop.simps [simp del]

definition sc_clients :: "uint16_t \<Rightarrow> real \<Rightarrow> UdpClientApp list" where
  "sc_clients nUes simTime =
     (let dlPort = 1234;
          packetInterval = 1 / 10;
          packetSize = 200;
          clientApps = sc_client_loop nUes dlPort packetInterval packetSize 0 [];
          started = map (\<lambda>app. app\<lparr>startTime := 5 / 10\<rparr>) clientApps
      in map (\<lambda>app. app\<lparr>stopTime := simTime\<rparr>) started)"

subsection \<open>The flow that the specification describes\<close>

text \<open>
  The constant-bit-rate flow of terminal \<open>k\<close>: 200 bytes per packet, the given interval,
  the largest packet count that the attribute can hold, active from 0.5 s to the horizon.
\<close>

definition cbr_flow :: "real \<Rightarrow> real \<Rightarrow> nat \<Rightarrow> UdpClientApp" where
  "cbr_flow interval horizon k =
     \<lparr>node = k, remotePort = 1234, MaxPackets = 4294967295, Interval = interval,
      PacketSize = 200, startTime = 1 / 2, stopTime = horizon\<rparr>"

section \<open>The programs\<close>

text \<open>
  What the set-up hands to the simulation of ns-3. The positions of the terminals are
  drawn by ns-3's random variables and belong to that side.
\<close>

record scenario =
  bandwidth :: LteBandwidth
  coreLink :: P2pLink
  enbPositions :: "Vector list"
  clients :: "UdpClientApp list"
  stopAt :: real

text \<open>
  \<^verbatim>\<open>main\<close> of the multi-cell program. \<open>run\<close> stands for \<^verbatim>\<open>Simulator::Run()\<close> and the flow
  monitor: it gives the statistics of the flows of a scenario. The result is the abort or
  the report that is printed on the standard output at the end. The lines of the log
  (\<^verbatim>\<open>NS_LOG_INFO\<close>, under \<^verbatim>\<open>verbose\<close>) and the creation of the server application and of
  the routes carry no data to the report and are not part of the result.
\<close>

definition mc_main ::
  "uint32_t \<Rightarrow> uint16_t \<Rightarrow> real \<Rightarrow> string \<Rightarrow> real \<Rightarrow>
   (scenario \<Rightarrow> (FlowId \<times> FlowStats) list) \<Rightarrow> abort + AggregateReport" where
  "mc_main nUes nEnbs simTime tech areaSize run =
     (case mc_set_bandwidth tech of
        Inl e \<Rightarrow> Inl e
      | Inr bw \<Rightarrow>
          (let link = mc_p2p_link tech in
           case mc_place_enbs_b64 nEnbs areaSize of
             Inl e \<Rightarrow> Inl e
           | Inr enbs \<Rightarrow>
               (let apps = mc_clients nUes simTime;
                    stats = run \<lparr>bandwidth = bw, coreLink = link, enbPositions = enbs,
                                 clients = apps, stopAt = simTime\<rparr>
                in Inr (mc_aggregate stats simTime))))"

text \<open>\<^verbatim>\<open>main\<close> of the single-cell program.\<close>

definition sc_main ::
  "uint16_t \<Rightarrow> real \<Rightarrow> string \<Rightarrow>
   (scenario \<Rightarrow> (FlowId \<times> FlowStats) list) \<Rightarrow> abort + AggregateReport" where
  "sc_main nUes simTime tech run =
     (case sc_set_bandwidth tech of
        Inl e \<Rightarrow> Inl e
      | Inr bw \<Rightarrow>
          (let link = sc_p2p_link tech;
               enbs = sc_place_enbs;
               apps = sc_clients nUes simTime;
               stats = run \<lparr>bandwidth = bw, coreLink = link, enbPositions = enbs,
                            clients = apps, stopAt = simTime\<rparr>
           in Inr (sc_aggregate stats simTime)))"

section \<open>Properties of the aggregation\<close>

subsection \<open>What the loop over the flows accumulates\<close>

text \<open>
  Each accumulator ends at its start value plus the sum over the flows; the three
  counters add in 64 bits, so they hold the sums modulo \<open>2 ^ 64\<close>.
\<close>

lemma mc_loop_delay:
  "totalDelay (mc_flow_loop stats t) = totalDelay t + sumDelay stats"
  unfolding sumDelay_def by (induction stats arbitrary: t) (simp_all add: Let_def)

lemma mc_loop_jitter:
  "totalJitter (mc_flow_loop stats t) = totalJitter t + sumJitter stats"
  unfolding sumJitter_def by (induction stats arbitrary: t) (simp_all add: Let_def)

lemma mc_loop_rx:
  "totalRxPackets (mc_flow_loop stats t) = totalRxPackets t + word_of_nat (sumRxPackets stats)"
  unfolding sumRxPackets_def by (induction stats arbitrary: t) (simp_all add: Let_def)

lemma mc_loop_bytes:
  "totalRxBytes (mc_flow_loop stats t) = totalRxBytes t + word_of_nat (sumRxBytes stats)"
  unfolding sumRxBytes_def by (induction stats arbitrary: t) (simp_all add: Let_def)

lemma mc_loop_lost:
  "totalLostPackets (mc_flow_loop stats t) = totalLostPackets t + word_of_nat (sumLost stats)"
  unfolding sumLost_def by (induction stats arbitrary: t) (simp_all add: Let_def)

lemma sc_flow_loop_eq: "sc_flow_loop stats t = mc_flow_loop stats t"
  by (induction stats arbitrary: t) (simp_all add: Let_def)

lemma sc_metrics_eq: "sc_metrics t T = mc_metrics t T"
  by (simp add: sc_metrics_def mc_metrics_def)

lemma sc_aggregate_eq: "sc_aggregate stats T = mc_aggregate stats T"
  by (simp add: sc_aggregate_def mc_aggregate_def sc_flow_loop_eq sc_metrics_eq)

lemma unat_u64: "n < 2 ^ 64 \<Longrightarrow> unat (word_of_nat n :: 64 word) = n"
  by (simp add: unat_of_nat)

lemma u64_pos: "n < 2 ^ 64 \<Longrightarrow> (0 < (word_of_nat n :: 64 word)) = (0 < n)"
  by (simp add: word_less_nat_alt unat_of_nat)

lemma u64_gt1: "n < 2 ^ 64 \<Longrightarrow> (1 < (word_of_nat n :: 64 word)) = (1 < n)"
  by (simp add: word_less_nat_alt unat_of_nat)

lemma u64_pred: "n < 2 ^ 64 \<Longrightarrow> 1 < n \<Longrightarrow> unat ((word_of_nat n :: 64 word) - 1) = n - 1"
  by (simp add: unat_sub word_le_nat_alt unat_of_nat)

lemma mc_meanDelay:
  assumes "sumRxPackets stats < 2 ^ 64"
  shows "meanDelayMs (mc_aggregate stats T) =
    (if 0 < sumRxPackets stats
     then Some (sumDelay stats / real (sumRxPackets stats) * 1000) else Some 0)"
  using assms
  by (simp add: mc_aggregate_def mc_metrics_def mc_loop_delay mc_loop_rx totals_init_def
      u64_pos unat_u64 ddiv_def dscale_def Let_def)

lemma mc_meanJitter:
  assumes "sumRxPackets stats < 2 ^ 64"
  shows "jitterMs (mc_aggregate stats T) =
    (if 1 < sumRxPackets stats
     then Some (sumJitter stats / real (sumRxPackets stats - 1) * 1000) else Some 0)"
proof (cases "1 < sumRxPackets stats")
  case True
  then have "0 < sumRxPackets stats" by simp
  with True assms show ?thesis
    by (simp add: mc_aggregate_def mc_metrics_def mc_loop_jitter mc_loop_rx totals_init_def
      u64_pos u64_gt1 u64_pred unat_u64 ddiv_def dscale_def Let_def)
next
  case False
  with assms show ?thesis
    by (simp add: mc_aggregate_def mc_metrics_def mc_loop_jitter mc_loop_rx totals_init_def
      u64_pos u64_gt1 unat_u64 ddiv_def dscale_def Let_def)
qed

lemma mc_throughput:
  assumes "sumRxPackets stats < 2 ^ 64" and "sumRxBytes stats < 2 ^ 64" and "T \<noteq> 0"
  shows "throughputMbps (mc_aggregate stats T) =
    (if 0 < sumRxPackets stats
     then Some (real (sumRxBytes stats) * 8 / (T * 1000000)) else Some 0)"
  using assms
  by (simp add: mc_aggregate_def mc_metrics_def mc_loop_bytes mc_loop_rx totals_init_def
      u64_pos unat_u64 ddiv_def dscale_def Let_def)

lemma mc_throughput_zero_rx:
  assumes "sumRxPackets stats = 0"
  shows "throughputMbps (mc_aggregate stats T) = Some 0"
  using assms
  by (simp add: mc_aggregate_def mc_metrics_def mc_loop_rx totals_init_def Let_def)

lemma mc_lossRate:
  assumes "sumRxPackets stats + sumLost stats < 2 ^ 64"
  shows "lossRatePct (mc_aggregate stats T) =
    (if 0 < sumRxPackets stats + sumLost stats
     then Some (real (sumLost stats) * 100 / real (sumRxPackets stats + sumLost stats))
     else Some 0)"
proof -
  have l: "sumLost stats < 2 ^ 64" using assms by simp
  have "lossRatePct (mc_aggregate stats T) =
     (if 0 < (word_of_nat (sumRxPackets stats + sumLost stats) :: 64 word)
      then ddiv (real (unat (word_of_nat (sumLost stats) :: 64 word)) * 100)
             (real (unat (word_of_nat (sumRxPackets stats + sumLost stats) :: 64 word)))
      else Some 0)"
    by (simp add: mc_aggregate_def mc_metrics_def mc_loop_lost mc_loop_rx totals_init_def Let_def
        split: prod.splits)
  also have "\<dots> = (if 0 < sumRxPackets stats + sumLost stats
     then Some (real (sumLost stats) * 100 / real (sumRxPackets stats + sumLost stats))
     else Some 0)"
    using assms l by (simp only: u64_pos unat_u64) (simp add: ddiv_def)
  finally show ?thesis .
qed

lemma two_flows_sums:
  "sumRxPackets two_flows = 15" "sumLost two_flows = 2" "sumRxBytes two_flows = 3000"
  "sumDelay two_flows = 13 / 10" "sumJitter two_flows = 1 / 4"
  by (simp_all add: two_flows_def flowA_def flowB_def sumRxPackets_def sumLost_def sumRxBytes_def
      sumDelay_def sumJitter_def)

lemma mc_zero_rx:
  assumes "sumRxPackets stats = 0"
  shows "meanDelayMs (mc_aggregate stats T) = Some 0"
    and "jitterMs (mc_aggregate stats T) = Some 0"
    and "throughputMbps (mc_aggregate stats T) = Some 0"
  using assms
  by (simp_all add: mc_aggregate_def mc_metrics_def mc_loop_rx totals_init_def Let_def)

lemma example_sums:
  "sumRxPackets single_packet_run = 1" "sumDelay single_packet_run = 5 / 100"
  "sumRxBytes single_packet_run = 100" "sumLost single_packet_run = 0"
  "sumJitter single_packet_run = 0"
  "sumRxPackets all_lost_run = 0" "sumLost all_lost_run = 5"
  "sumRxPackets bytes_only_run = 0" "sumRxBytes bytes_only_run = 500"
  "sumRxPackets all_zero_run = 0" "sumLost all_zero_run = 0"
  "sumRxPackets [] = 0" "sumLost [] = 0"
  by (simp_all add: single_packet_flow_def all_lost_flow_def bytes_only_flow_def all_zero_flow_def
      single_packet_run_def all_lost_run_def bytes_only_run_def all_zero_run_def
      sumRxPackets_def sumLost_def sumRxBytes_def sumDelay_def sumJitter_def)

text \<open>
  The log line of a flow divides by the horizon without a guard: its two numbers are
  finite for every flow when the horizon is not zero.
\<close>

lemma flow_line_finite:
  assumes "T \<noteq> 0"
  shows "fst (mc_flow_line fs T) \<noteq> None \<and> snd (mc_flow_line fs T) \<noteq> None
       \<and> sc_flow_line fs T = mc_flow_line fs T"
  using assms
  by (simp add: mc_flow_line_def sc_flow_line_def ddiv_def dscale_def Let_def)

subsection \<open>The claims about the report\<close>

text \<open>
  The hypotheses \<open>\<dots> < 2 ^ 64\<close> below say that a 64-bit total of the program did not wrap
  around, so that it is the sum that the specification writes.
\<close>

text \<open>
  C1. The loop adds a flow's jitter sum to the total only when the flow received more
  than one packet (\<open>sumJitter\<close> filters the flows so), in both programs, and the reported
  mean jitter is that total divided by the number of all received packets minus one,
  in milliseconds, when more than one packet was received, and 0 otherwise.
\<close>

theorem mean_jitter_formula:
  assumes "sumRxPackets stats < 2 ^ 64"
  shows "totalJitter (mc_flow_loop stats totals_init) = sumJitter stats
       \<and> totalJitter (sc_flow_loop stats totals_init) = sumJitter stats
       \<and> jitterMs (mc_aggregate stats T) =
           (if 1 < sumRxPackets stats
            then Some (sumJitter stats / real (sumRxPackets stats - 1) * 1000) else Some 0)
       \<and> jitterMs (sc_aggregate stats T) =
           (if 1 < sumRxPackets stats
            then Some (sumJitter stats / real (sumRxPackets stats - 1) * 1000) else Some 0)"
  using mc_meanJitter [OF assms, of T]
  by (simp add: sc_aggregate_eq sc_flow_loop_eq mc_loop_jitter totals_init_def)

text \<open>
  The two-flow example of the specification: 0.25 s over 14, that is 250/14 ms; and the
  flow with one packet, whose jitter sum is left out.
\<close>

theorem mean_jitter_formula_witness:
  "sumRxPackets two_flows < 2 ^ 64
   \<and> totalJitter (mc_flow_loop two_flows totals_init) = 25 / 100
   \<and> jitterMs (mc_aggregate two_flows 60) = Some (250 / 14)
   \<and> jitterMs (sc_aggregate two_flows 60) = Some (250 / 14)
   \<and> totalJitter (mc_flow_loop single_packet_run totals_init) = 0
   \<and> jitterMs (mc_aggregate single_packet_run 10) = Some 0"
  using mean_jitter_formula [of two_flows 60] mean_jitter_formula [of single_packet_run 10]
  by (simp add: two_flows_sums example_sums)

text \<open>
  C3. The loop adds every flow's delay sum to the total, whatever the flow received
  (\<open>sumDelay\<close> is the sum over all flows), in both programs, and the reported mean delay
  is that total divided by the number of received packets, in milliseconds, when a
  packet was received, and 0 otherwise.
\<close>

theorem mean_delay_formula:
  assumes "sumRxPackets stats < 2 ^ 64"
  shows "totalDelay (mc_flow_loop stats totals_init) = sumDelay stats
       \<and> totalDelay (sc_flow_loop stats totals_init) = sumDelay stats
       \<and> meanDelayMs (mc_aggregate stats T) =
           (if 0 < sumRxPackets stats
            then Some (sumDelay stats / real (sumRxPackets stats) * 1000) else Some 0)
       \<and> meanDelayMs (sc_aggregate stats T) =
           (if 0 < sumRxPackets stats
            then Some (sumDelay stats / real (sumRxPackets stats) * 1000) else Some 0)"
  using mc_meanDelay [OF assms, of T]
  by (simp add: sc_aggregate_eq sc_flow_loop_eq mc_loop_delay totals_init_def)

text \<open>The two-flow example (1.3 s over 15 packets), the single packet and no flow at all.\<close>

theorem mean_delay_formula_witness:
  "sumRxPackets two_flows < 2 ^ 64
   \<and> totalDelay (mc_flow_loop two_flows totals_init) = 13 / 10
   \<and> meanDelayMs (mc_aggregate two_flows 60) = Some (1300 / 15)
   \<and> meanDelayMs (sc_aggregate two_flows 60) = Some (1300 / 15)
   \<and> meanDelayMs (mc_aggregate single_packet_run 10) = Some 50
   \<and> meanDelayMs (mc_aggregate [] 10) = Some 0"
  using mean_delay_formula [of two_flows 60] mean_delay_formula [of single_packet_run 10]
    mean_delay_formula [of "[]" 10]
  by (simp add: two_flows_sums example_sums)

text \<open>
  C6. The reported loss rate is \<open>100 * lost / (received + lost)\<close> when that denominator is
  positive, and 0 otherwise.
\<close>

theorem loss_rate_formula:
  assumes "sumRxPackets stats + sumLost stats < 2 ^ 64"
  shows "lossRatePct (mc_aggregate stats T) =
           (if 0 < sumRxPackets stats + sumLost stats
            then Some (real (sumLost stats) * 100 / real (sumRxPackets stats + sumLost stats))
            else Some 0)
       \<and> lossRatePct (sc_aggregate stats T) =
           (if 0 < sumRxPackets stats + sumLost stats
            then Some (real (sumLost stats) * 100 / real (sumRxPackets stats + sumLost stats))
            else Some 0)"
  using mc_lossRate [OF assms, of T]
  by (simp add: sc_aggregate_eq)

text \<open>The two-flow example: 15 received, 2 lost, 200/17 per cent.\<close>

theorem loss_rate_formula_witness:
  "sumRxPackets two_flows + sumLost two_flows < 2 ^ 64
   \<and> sumRxPackets two_flows = 15 \<and> sumLost two_flows = 2
   \<and> lossRatePct (mc_aggregate two_flows 60) = Some (200 / 17)
   \<and> lossRatePct (sc_aggregate two_flows 60) = Some (200 / 17)
   \<and> lossRatePct (mc_aggregate [] 60) = Some 0"
  using loss_rate_formula [of two_flows 60] loss_rate_formula [of "[]" 60]
  by (simp add: two_flows_sums example_sums)

text \<open>
  C7. For a positive horizon \<open>T\<close> the reported throughput is
  \<open>bytes * 8 / (T * 1000000)\<close> when a packet was received, and 0 when none was, whatever
  the byte count.
\<close>

theorem throughput_formula:
  assumes "0 < T" and "sumRxPackets stats < 2 ^ 64" and "sumRxBytes stats < 2 ^ 64"
  shows "throughputMbps (mc_aggregate stats T) =
           (if 0 < sumRxPackets stats
            then Some (real (sumRxBytes stats) * 8 / (T * 1000000)) else Some 0)
       \<and> throughputMbps (sc_aggregate stats T) =
           (if 0 < sumRxPackets stats
            then Some (real (sumRxBytes stats) * 8 / (T * 1000000)) else Some 0)"
proof -
  have "T \<noteq> 0" using assms(1) by simp
  then show ?thesis
    using mc_throughput [OF assms(2,3), of T] by (simp add: sc_aggregate_eq)
qed

text \<open>The two-flow example over 60 s, the single packet over 10 s, and bytes without packets.\<close>

theorem throughput_formula_witness:
  "(0 :: real) < 60 \<and> sumRxPackets two_flows < 2 ^ 64 \<and> sumRxBytes two_flows < 2 ^ 64
   \<and> throughputMbps (mc_aggregate two_flows 60) = Some (3000 * 8 / (60 * 1000000))
   \<and> throughputMbps (sc_aggregate two_flows 60) = Some (3000 * 8 / (60 * 1000000))
   \<and> throughputMbps (mc_aggregate single_packet_run 10) = Some (8 / 100000)
   \<and> sumRxBytes bytes_only_run = 500
   \<and> throughputMbps (mc_aggregate bytes_only_run 60) = Some 0"
  using throughput_formula [of 60 two_flows] throughput_formula [of 10 single_packet_run]
    throughput_formula [of 60 bytes_only_run]
  by (simp add: two_flows_sums example_sums)

text \<open>
  C2, as the specification states it, fails: a flow that received nothing and lost five
  packets has zero received packets across all flows, and its loss rate is 100, not 0.
\<close>

theorem zero_rx_loss_counterexample:
  "sumRxPackets all_lost_run = 0
   \<and> lossRatePct (mc_aggregate all_lost_run 60) = Some 100
   \<and> lossRatePct (sc_aggregate all_lost_run 60) = Some 100
   \<and> lossRatePct (mc_aggregate all_lost_run 60) \<noteq> Some 0"
  using mc_lossRate [of all_lost_run 60]
  by (simp add: example_sums sc_aggregate_eq)

text \<open>
  C2, amended. When no packet was received across all flows, the mean delay, the mean
  jitter and the throughput of the report are 0 for every horizon, and no formula of the
  report divides by zero (each value is \<open>Some\<close>); the loss rate is 0 when no packet was
  lost either (the empty set, all-zero records) and 100 when some packet was lost.
\<close>

theorem zero_rx_report:
  assumes "sumRxPackets stats = 0" and "sumLost stats < 2 ^ 64"
  shows "meanDelayMs (mc_aggregate stats T) = Some 0
       \<and> jitterMs (mc_aggregate stats T) = Some 0
       \<and> throughputMbps (mc_aggregate stats T) = Some 0
       \<and> lossRatePct (mc_aggregate stats T) = (if sumLost stats = 0 then Some 0 else Some 100)
       \<and> meanDelayMs (sc_aggregate stats T) = Some 0
       \<and> jitterMs (sc_aggregate stats T) = Some 0
       \<and> throughputMbps (sc_aggregate stats T) = Some 0
       \<and> lossRatePct (sc_aggregate stats T) = (if sumLost stats = 0 then Some 0 else Some 100)"
proof -
  have "sumRxPackets stats + sumLost stats < 2 ^ 64"
    using assms by simp
  from mc_lossRate [OF this, of T]
  have "lossRatePct (mc_aggregate stats T) = (if sumLost stats = 0 then Some 0 else Some 100)"
    using assms(1) by simp
  then show ?thesis
    using mc_zero_rx [OF assms(1), of T] by (simp add: sc_aggregate_eq)
qed

text \<open>An all-zero record, no record (with horizon 0), and the flow that lost everything.\<close>

theorem zero_rx_report_witness:
  "sumRxPackets all_zero_run = 0 \<and> sumLost all_zero_run < 2 ^ 64
   \<and> meanDelayMs (mc_aggregate all_zero_run 60) = Some 0
   \<and> jitterMs (mc_aggregate all_zero_run 60) = Some 0
   \<and> throughputMbps (mc_aggregate all_zero_run 60) = Some 0
   \<and> lossRatePct (mc_aggregate all_zero_run 60) = Some 0
   \<and> lossRatePct (sc_aggregate [] 0) = Some 0
   \<and> throughputMbps (sc_aggregate [] 0) = Some 0
   \<and> meanDelayMs (mc_aggregate all_lost_run 60) = Some 0
   \<and> lossRatePct (mc_aggregate all_lost_run 60) = Some 100"
  using zero_rx_report [of all_zero_run 60] zero_rx_report [of "[]" 0]
    zero_rx_report [of all_lost_run 60]
  by (simp add: example_sums)

text \<open>
  C10. The aggregation stage of the single-cell program and that of the multi-cell
  program are the same function: the same loop from the same accumulators, the same
  guarded formulas, and so the same report for the same flows and horizon.
\<close>

theorem aggregation_stages_equal:
  "sc_flow_loop stats t = mc_flow_loop stats t
   \<and> sc_metrics t T = mc_metrics t T
   \<and> sc_aggregate stats T = mc_aggregate stats T"
  by (simp add: sc_flow_loop_eq sc_metrics_eq sc_aggregate_eq)

text \<open>Both stages on the two-flow example and on no flow.\<close>

theorem aggregation_stages_equal_witness:
  "sc_flow_loop two_flows totals_init = mc_flow_loop two_flows totals_init
   \<and> sc_aggregate two_flows 60 = mc_aggregate two_flows 60
   \<and> sc_aggregate [] 0 = mc_aggregate [] 0"
  using aggregation_stages_equal [of two_flows totals_init 60]
    aggregation_stages_equal [of "[]" totals_init 0]
  by simp

section \<open>Properties of the placement\<close>

subsection \<open>Floor of the square root, ceiling of the quotient\<close>

lemma floor_sqrt_nat:
  fixes n k :: nat
  assumes "k * k \<le> n" and "n < (k + 1) * (k + 1)"
  shows "\<lfloor>sqrt (real n)\<rfloor> = int k"
proof -
  have "real k = sqrt (real (k * k))" by simp
  also have "\<dots> \<le> sqrt (real n)" using assms(1) by (simp only: real_sqrt_le_iff of_nat_le_iff)
  finally have lo: "real k \<le> sqrt (real n)" .
  have "sqrt (real n) < sqrt (real ((k + 1) * (k + 1)))"
    using assms(2) by (simp only: real_sqrt_less_iff of_nat_less_iff)
  also have "\<dots> = real (k + 1)" by (simp only: of_nat_mult real_sqrt_mult_self) simp
  finally have hi: "sqrt (real n) < real k + 1" by simp
  show ?thesis using lo hi by (simp add: floor_eq_iff)
qed

lemma floor_sqrt_le:
  fixes n :: nat
  shows "nat \<lfloor>sqrt (real n)\<rfloor> \<le> n"
proof -
  have "sqrt (real n) \<le> real n"
  proof (cases "n = 0")
    case True then show ?thesis by simp
  next
    case False
    then have "1 \<le> real n" by simp
    then have "sqrt (real n) \<le> sqrt (real n) * sqrt (real n)"
      by (metis mult.right_neutral mult_left_mono real_sqrt_ge_0_iff real_sqrt_ge_1_iff of_nat_0_le_iff)
    then show ?thesis by simp
  qed
  then have "\<lfloor>sqrt (real n)\<rfloor> \<le> int n" by (simp add: floor_le_iff)
  then show ?thesis by simp
qed

lemma floor_sqrt_nonneg:
  fixes n :: nat
  shows "0 \<le> \<lfloor>sqrt (real n)\<rfloor>"
  by simp

lemma ceil_div_nonneg:
  fixes N r :: nat
  shows "0 \<le> \<lceil>real N / real r\<rceil>"
proof -
  have "0 \<le> real N / real r" by simp
  then have "- 1 < real N / real r" by linarith
  then show ?thesis by (simp only: zero_le_ceiling)
qed

lemma unat_word_of_int_16:
  assumes "0 \<le> z" and "z < 65536"
  shows "unat (word_of_int z :: 16 word) = nat z"
proof -
  have "word_of_int z = (word_of_nat (nat z) :: 16 word)" using assms(1) by simp
  moreover have "nat z < 2 ^ 16" using assms by simp
  ultimately show ?thesis by (simp add: unat_of_nat)
qed

lemma unat_lt_65536: "unat (w :: 16 word) < 65536"
  using unsigned_less [of w, where ?'a = nat] by simp

lemma unat_clamp_16:
  assumes "0 \<le> z" and "z < 65536"
  shows "unat (if (word_of_int z :: 16 word) = 0 then 1 else (word_of_int z :: 16 word)) = max 1 (nat z)"
proof (cases "z = 0")
  case True
  then show ?thesis by simp
next
  case False
  with assms(1) have pos: "1 \<le> nat z" by linarith
  have u: "unat (word_of_int z :: 16 word) = nat z"
    using assms by (rule unat_word_of_int_16)
  with pos have "unat (word_of_int z :: 16 word) \<noteq> 0" by linarith
  then have "(word_of_int z :: 16 word) \<noteq> 0" by (metis unat_eq_0)
  then have "unat (if (word_of_int z :: 16 word) = 0 then 1 else (word_of_int z :: 16 word)) = nat z"
    using u by (simp only: if_False)
  also have "\<dots> = max 1 (nat z)" using pos by linarith
  finally show ?thesis .
qed

lemma unat_mc_nRows: "unat (mc_nRows nEnbs) = grid_rows (unat nEnbs)"
proof -
  let ?z = "\<lfloor>sqrt (real (unat nEnbs))\<rfloor>"
  have nonneg: "0 \<le> ?z" by (rule floor_sqrt_nonneg)
  have "nat ?z \<le> unat nEnbs" by (rule floor_sqrt_le)
  then have small: "?z < 65536" using unat_lt_65536 [of nEnbs] by linarith
  show ?thesis
    unfolding mc_nRows_def grid_rows_def Let_def
    using nonneg small by (rule unat_clamp_16)
qed

lemma grid_rows_pos: "0 < grid_rows N"
  by (simp add: grid_rows_def)

lemma ceil_div_le:
  fixes N r :: nat
  assumes "0 < r"
  shows "\<lceil>real N / real r\<rceil> \<le> int N"
proof -
  have "real N / real r \<le> real N"
    using assms by (simp add: divide_le_eq mult_le_cancel_left1)
  then show ?thesis by (simp add: ceiling_le_iff)
qed

lemma unat_mc_nCols: "unat (mc_nCols nEnbs (mc_nRows nEnbs)) = grid_cols (unat nEnbs)"
proof -
  let ?z = "\<lceil>real (unat nEnbs) / real (grid_rows (unat nEnbs))\<rceil>"
  have nonneg: "0 \<le> ?z" by (rule ceil_div_nonneg)
  have "?z \<le> int (unat nEnbs)" using grid_rows_pos by (rule ceil_div_le)
  then have small: "?z < 65536" using unat_lt_65536 [of nEnbs] by linarith
  have "unat (word_of_int ?z :: 16 word) = nat ?z"
    using nonneg small by (rule unat_word_of_int_16)
  then show ?thesis
    by (simp add: mc_nCols_def unat_mc_nRows grid_cols_def)
qed


lemma grid_cols_pos:
  assumes "0 < N"
  shows "0 < grid_cols N"
proof -
  have "0 < real N / real (grid_rows N)"
    using assms grid_rows_pos [of N] by simp
  then have "0 < \<lceil>real N / real (grid_rows N)\<rceil>"
    by (simp only: ceiling_less_iff zero_less_ceiling)
  then show ?thesis
    by (simp add: grid_cols_def)
qed

lemma grid_capacity: "N \<le> grid_rows N * grid_cols N"
proof -
  let ?r = "grid_rows N"
  have r: "0 < real ?r" using grid_rows_pos [of N] by simp
  have "real N / real ?r \<le> real_of_int \<lceil>real N / real ?r\<rceil>"
    by (rule le_of_int_ceiling)
  also have "\<dots> = real (grid_cols N)"
    using ceil_div_nonneg [of N ?r] by (simp add: grid_cols_def)
  finally have "real N \<le> real (grid_cols N) * real ?r"
    using r by (simp add: pos_divide_le_eq)
  then have "real N \<le> real (?r * grid_cols N)"
    by (simp add: mult.commute)
  then show ?thesis
    by (simp only: of_nat_le_iff)
qed

lemma grid_row_less:
  assumes "i < N"
  shows "i div grid_cols N < grid_rows N"
proof -
  have "i < grid_rows N * grid_cols N"
    using assms grid_capacity [of N] by linarith
  then show ?thesis
    by (simp add: less_mult_imp_div_less)
qed

lemma grid_col_less:
  assumes "i < N"
  shows "i mod grid_cols N < grid_cols N"
  using assms grid_cols_pos [of N] by simp

subsection \<open>What the placement loop returns\<close>

text \<open>
  The loop sets the stations from the counter's value up to \<open>nEnbs\<close> and leaves the
  others; from 0 it sets all of them, and no divisor is zero when its body runs.
\<close>

lemma mc_enb_loop_rnd_result:
  assumes "nCols \<noteq> 0" and "length enbNodes = unat nEnbs" and "i \<le> nEnbs"
  shows "mc_enb_loop_rnd rnd nEnbs nCols half dx dy i enbNodes =
    Inr (take (unat i) enbNodes @
         map (\<lambda>j. Vector (rnd (- half + rnd ((real (j mod unat nCols) + 1) * dx)))
                         (rnd (- half + rnd ((real (j div unat nCols) + 1) * dy))) 30)
             [unat i ..< unat nEnbs])"
  using assms(2,3)
proof (induction "unat nEnbs - unat i" arbitrary: i enbNodes)
  case 0
  then have "unat i = unat nEnbs"
    by (simp add: word_le_nat_alt)
  then have "\<not> i < nEnbs"
    by (simp add: word_less_nat_alt)
  then show ?case
    using \<open>unat i = unat nEnbs\<close> \<open>length enbNodes = unat nEnbs\<close>
    by (simp add: mc_enb_loop_rnd.simps [of rnd nEnbs nCols half dx dy i enbNodes])
next
  case (Suc k)
  let ?v = "Vector (rnd (- half + rnd ((real (unat i mod unat nCols) + 1) * dx)))
                   (rnd (- half + rnd ((real (unat i div unat nCols) + 1) * dy))) 30"
  from Suc.hyps(2) have less: "unat i < unat nEnbs" by linarith
  then have lt: "i < nEnbs" by (simp add: word_less_nat_alt)
  then have succ: "unat (i + 1) = unat i + 1" by (rule unat_succ_less)
  have le': "i + 1 \<le> nEnbs" using less succ by (simp add: word_le_nat_alt)
  have k: "k = unat nEnbs - unat (i + 1)" using Suc.hyps(2) succ by linarith
  have len: "length (enbNodes[unat i := ?v]) = unat nEnbs" using Suc.prems(1) by simp
  have step: "mc_enb_loop_rnd rnd nEnbs nCols half dx dy i enbNodes =
      mc_enb_loop_rnd rnd nEnbs nCols half dx dy (i + 1) (enbNodes[unat i := ?v])"
    by (subst mc_enb_loop_rnd.simps)
       (simp only: lt assms(1) if_True if_False Let_def unat_div unat_mod)
  have tk: "take (unat i + 1) (enbNodes[unat i := ?v]) = take (unat i) enbNodes @ [?v]"
    using less Suc.prems(1) by (simp add: take_Suc_conv_app_nth)
  have up: "[unat i ..< unat nEnbs] = unat i # [unat i + 1 ..< unat nEnbs]"
    using less by (simp add: upt_conv_Cons)
  show ?case
    unfolding step Suc.hyps(1) [OF k len le'] succ tk up by simp
qed

lemma mc_place_enbs_rnd_stations:
  "mc_place_enbs_rnd rnd nEnbs A = Inr (map (rnd_station rnd (unat nEnbs) A) [0..<unat nEnbs])"
proof (cases "nEnbs = 0")
  case True
  then show ?thesis
    by (simp add: mc_place_enbs_rnd_def Let_def mc_enb_loop_rnd.simps [of _ 0 _ _ _ _ 0])
next
  case False
  then have N: "0 < unat nEnbs" by (simp add: unat_gt_0)
  let ?r = "mc_nRows nEnbs"
  let ?c = "mc_nCols nEnbs ?r"
  have c: "unat ?c = grid_cols (unat nEnbs)" by (rule unat_mc_nCols)
  have r: "unat ?r = grid_rows (unat nEnbs)" by (rule unat_mc_nRows)
  have "unat ?c \<noteq> 0" using grid_cols_pos [OF N] c by linarith
  then have c0: "?c \<noteq> 0" by (metis unat_eq_0)
  have len: "length (replicate (unat nEnbs) (Vector 0 0 0)) = unat nEnbs" by simp
  have le: "(0 :: 16 word) \<le> nEnbs" by simp
  show ?thesis
    unfolding mc_place_enbs_rnd_def Let_def mc_enb_loop_rnd_result [OF c0 len le] c r
    by (simp add: rnd_station_def rnd_coord_def)
qed









subsection \<open>The claims about the placement\<close>



subsection \<open>Binary64 rounding\<close>

text \<open>
  The result of \<open>b64\<close> is within half a step of its argument: within \<open>\<bar>x\<bar> / 2 ^ 53\<close> for a
  normal number, within \<open>2 ^ - 1075\<close> for a subnormal one. Below \<open>2 ^ - 1021\<close> the step is
  \<open>min_subnormal\<close>.
\<close>

lemma round_even_error: "\<bar>of_int (round_even y) - y\<bar> \<le> 1 / 2"
proof -
  define f where "f = \<lfloor>y\<rfloor>"
  have lo: "of_int f \<le> y" and hi: "y < of_int f + 1"
    unfolding f_def by linarith+
  have r: "round_even y =
      (if y - of_int f < 1 / 2 then f else if 1 / 2 < y - of_int f then f + 1
       else if even f then f else f + 1)"
    by (simp add: round_even_def Let_def f_def)
  show ?thesis
    using lo hi unfolding r by (auto simp add: abs_if)
qed

lemma b64_error: "\<bar>b64 x - x\<bar> \<le> \<bar>x\<bar> / 2 ^ 53 + 1 / 2 ^ 1075"
proof (cases "x = 0")
  case True
  then show ?thesis by (simp add: b64_def)
next
  case False
  define e where "e = max \<lfloor>log 2 \<bar>x\<bar>\<rfloor> (- 1022)"
  define ulp :: real where "ulp = 2 powr (of_int e - 52)"
  have ulp_pos: "0 < ulp" by (simp add: ulp_def)
  have b: "b64 x = of_int (round_even (x / ulp)) * ulp"
    using False by (simp add: b64_def Let_def e_def ulp_def)
  have "\<bar>b64 x - x\<bar> = \<bar>of_int (round_even (x / ulp)) - x / ulp\<bar> * ulp"
  proof -
    have "b64 x - x = (of_int (round_even (x / ulp)) - x / ulp) * ulp"
      using ulp_pos by (simp add: b left_diff_distrib)
    then show ?thesis
      using ulp_pos by (simp add: abs_mult)
  qed
  also have "\<dots> \<le> 1 / 2 * ulp"
    using round_even_error [of "x / ulp"] ulp_pos by (simp only: mult_right_mono less_imp_le)
  finally have half: "\<bar>b64 x - x\<bar> \<le> ulp / 2" by simp
  have "ulp \<le> \<bar>x\<bar> / 2 ^ 52 + 1 / 2 ^ 1074"
  proof (cases "- 1022 \<le> \<lfloor>log 2 \<bar>x\<bar>\<rfloor>")
    case True
    then have "e = \<lfloor>log 2 \<bar>x\<bar>\<rfloor>" by (simp add: e_def)
    then have "ulp = 2 powr (of_int \<lfloor>log 2 \<bar>x\<bar>\<rfloor>) / 2 powr 52"
      by (simp add: ulp_def powr_diff)
    also have "\<dots> \<le> 2 powr (log 2 \<bar>x\<bar>) / 2 powr 52"
      by (intro divide_right_mono powr_mono) simp_all
    also have "\<dots> = \<bar>x\<bar> / 2 ^ 52"
      using False by simp
    finally show ?thesis by simp
  next
    case False
    then have "e = - 1022" by (simp add: e_def)
    then have "ulp = 2 powr (- 1074)" by (simp add: ulp_def)
    also have "\<dots> = 1 / 2 ^ 1074" by (simp add: powr_minus_divide)
    finally show ?thesis by simp
  qed
  then have "ulp / 2 \<le> \<bar>x\<bar> / 2 ^ 53 + 1 / 2 ^ 1075" by simp
  with half show ?thesis by linarith
qed

lemma b64_tiny:
  assumes "x \<noteq> 0" and "\<bar>x\<bar> * 2 ^ 1021 < 1"
  shows "b64 x = of_int (round_even (x * 2 ^ 1074)) / 2 ^ 1074"
proof -
  have pos: "0 < \<bar>x\<bar>" using assms(1) by simp
  have "\<bar>x\<bar> < 1 / 2 ^ 1021"
    using assms(2) by (simp add: pos_less_divide_eq)
  also have "\<dots> = (2 :: real) powr (- 1021)" by (simp add: powr_minus_divide)
  finally have "log 2 \<bar>x\<bar> < - 1021"
    using pos by (simp add: log_less_iff)
  then have "\<lfloor>log 2 \<bar>x\<bar>\<rfloor> < - 1021" by linarith
  then have e: "max \<lfloor>log 2 \<bar>x\<bar>\<rfloor> (- 1022) = - 1022" by simp
  have u: "(2 :: real) powr (of_int (- 1022) - 52) = 1 / 2 ^ 1074"
  proof -
    have "(2 :: real) powr (of_int (- 1022) - 52) = 2 powr (- 1074)" by simp
    also have "\<dots> = 1 / 2 ^ 1074" by (simp add: powr_minus_divide)
    finally show ?thesis .
  qed
  show ?thesis
    using assms(1) unfolding b64_def Let_def e u by simp
qed

lemma b64_zero: "b64 0 = 0"
  by (simp add: b64_def)

lemma b64_subnormal:
  assumes "q \<noteq> 0" and "\<bar>q\<bar> < 2 ^ 53"
  shows "b64 (q * min_subnormal) = of_int (round_even q) * min_subnormal"
proof -
  have nz: "q * min_subnormal \<noteq> 0"
    using assms(1) by (simp add: min_subnormal_def)
  have "\<bar>q * min_subnormal\<bar> * 2 ^ 1021 = \<bar>q\<bar> / 2 ^ 53"
    by (simp add: min_subnormal_def abs_mult)
  also have "\<dots> < 1"
    using assms(2) by simp
  finally have small: "\<bar>q * min_subnormal\<bar> * 2 ^ 1021 < 1" .
  show ?thesis
    unfolding b64_tiny [OF nz small] by (simp add: min_subnormal_def)
qed

lemma round_even_values:
  "round_even (1 / 2) = 0" "round_even (1 / 3) = 0" "round_even (2 / 3) = 1"
  "round_even 1 = 1" "round_even 2 = 2"
  by (simp_all add: round_even_def Let_def)

subsection \<open>The placement in binary64 against the exact grid\<close>

text \<open>
  For a side of at least \<open>2 ^ - 1000\<close> every coordinate that the program computes is within
  \<open>A / 2 ^ 34\<close> of the exact one, and the exact ones keep a distance of a cell,
  \<open>A / (m + 1) \<ge> A / 65536\<close>, from the border and from each other.
\<close>

lemmas pow_eval = power_numeral Num.pow.simps Num.sqr.simps Num.mult_num_simps

lemma rnd_small:
  fixes A eta :: real
  assumes rnd: "\<And>z. \<bar>rnd z - z\<bar> \<le> \<bar>z\<bar> / 2 ^ 53 + eta"
    and eta: "eta \<le> A / 2 ^ 75" and z: "\<bar>z\<bar> \<le> 2 * A"
  shows "\<bar>rnd z - z\<bar> \<le> A / 2 ^ 51"
proof -
  have "\<bar>z\<bar> / 2 ^ 53 \<le> 2 * A / 2 ^ 53"
    using z by (simp add: divide_right_mono)
  then show ?thesis
    using rnd [of z] eta z by (simp only: pow_eval)
qed

lemma exact_coord_bounds:
  fixes A :: real and k m :: nat
  assumes "0 < A" and "k < m"
  shows "A / (real m + 1) \<le> (real k + 1) * A / (real m + 1)"
    and "(real k + 1) * A / (real m + 1) \<le> A - A / (real m + 1)"
proof -
  have m: "0 < real m + 1" by linarith
  have "1 * A \<le> (real k + 1) * A"
    using assms(1) by (intro mult_right_mono) simp_all
  then show "A / (real m + 1) \<le> (real k + 1) * A / (real m + 1)"
    using m by (simp add: divide_right_mono)
  have "real k + 1 \<le> real m" using assms(2) by simp
  then have "(real k + 1) * A \<le> real m * A"
    using assms(1) by (intro mult_right_mono) simp_all
  then have "(real k + 1) * A / (real m + 1) \<le> real m * A / (real m + 1)"
    using m by (simp add: divide_right_mono)
  also have "real m * A / (real m + 1) = A - A / (real m + 1)"
    using m by (simp add: field_simps)
  finally show "(real k + 1) * A / (real m + 1) \<le> A - A / (real m + 1)" .
qed

lemma cell_width:
  fixes A :: real and m :: nat
  assumes "0 < A" and "m < 65536"
  shows "A / 65536 \<le> A / (real m + 1)"
proof -
  have "real m + 1 \<le> 65536" using assms(2) by simp
  moreover have "0 < real m + 1" by linarith
  ultimately show ?thesis
    using assms(1) by (intro frac_le) simp_all
qed

lemma rnd_coord_error:
  fixes A eta :: real and k m :: nat
  assumes rnd: "\<And>z. \<bar>rnd z - z\<bar> \<le> \<bar>z\<bar> / 2 ^ 53 + eta"
    and eta: "eta \<le> A / 2 ^ 75" and A: "0 < A" and km: "k < m" and m: "m < 65536"
  shows "\<bar>rnd_coord rnd A k m - (- A / 2 + (real k + 1) * A / (real m + 1))\<bar> \<le> A / 2 ^ 34"
proof -
  note small = rnd_small [of rnd eta A, OF rnd eta]
  define t where "t = A / (real m + 1)"
  define T where "T = (real k + 1) * A / (real m + 1)"
  define d where "d = rnd t"
  define q where "q = (real k + 1) * d"
  define p where "p = rnd q"
  define h where "h = rnd (A / 2)"
  define z where "z = - h + p"
  have m1: "0 < real m + 1" by linarith
  have T_lo: "t \<le> T" and T_hi: "T \<le> A - t"
    unfolding t_def T_def using exact_coord_bounds [OF A km] by simp_all
  have t_pos: "0 < t" unfolding t_def using A m1 by simp
  have t_le: "t \<le> A" using T_lo T_hi t_pos by linarith
  have Tq: "T = (real k + 1) * t" by (simp add: T_def t_def)
  have d_err: "\<bar>d - t\<bar> \<le> A / 2 ^ 51"
    unfolding d_def using t_pos t_le A by (intro small) simp
  have k1: "real k + 1 \<le> 65536" using km m by simp
  have "\<bar>q - T\<bar> = (real k + 1) * \<bar>d - t\<bar>"
    by (simp add: q_def Tq right_diff_distrib [symmetric] abs_mult)
  also have "\<dots> \<le> (real k + 1) * (A / 2 ^ 51)"
    using d_err by (intro mult_left_mono) simp_all
  also have "\<dots> \<le> 65536 * (A / 2 ^ 51)"
    using k1 A by (intro mult_right_mono) simp_all
  finally have q_err: "\<bar>q - T\<bar> \<le> A / 2 ^ 35" by simp
  have "\<bar>q\<bar> \<le> 2 * A" using q_err T_lo T_hi t_pos A by (simp only: pow_eval)
  then have p_err: "\<bar>p - q\<bar> \<le> A / 2 ^ 51"
    unfolding p_def by (rule small)
  have h_err: "\<bar>h - A / 2\<bar> \<le> A / 2 ^ 51"
    unfolding h_def using A by (intro small) simp
  have "\<bar>z\<bar> \<le> 2 * A"
    unfolding z_def using h_err p_err q_err T_lo T_hi t_pos A by (simp only: pow_eval)
  then have x_err: "\<bar>rnd z - z\<bar> \<le> A / 2 ^ 51"
    by (rule small)
  have "rnd_coord rnd A k m = rnd z"
    by (simp add: rnd_coord_def z_def h_def p_def q_def d_def t_def)
  then show ?thesis
    unfolding T_def [symmetric]
    using x_err h_err p_err q_err A unfolding z_def by (simp only: pow_eval)
qed


lemma b64_coord_error:
  fixes A :: real and k m :: nat
  assumes A: "1 / 2 ^ 1000 \<le> A" and km: "k < m" and m: "m < 65536"
  shows "\<bar>rnd_coord b64 A k m - (- A / 2 + (real k + 1) * A / (real m + 1))\<bar> \<le> A / 2 ^ 34"
proof -
  have pos: "0 < A"
  proof -
    have "(0 :: real) < 1 / 2 ^ 1000" by simp
    with A show ?thesis by linarith
  qed
  have "(1 :: real) / 2 ^ 1075 = 1 / 2 ^ 1000 / 2 ^ 75"
    by (simp add: power_add [symmetric])
  also have "\<dots> \<le> A / 2 ^ 75"
    using A by (intro divide_right_mono) simp_all
  finally have eta: "1 / 2 ^ 1075 \<le> A / 2 ^ 75" .
  show ?thesis
    using b64_error eta pos km m by (rule rnd_coord_error)
qed

lemma b64_coord_inside:
  fixes A :: real and k m :: nat
  assumes A: "1 / 2 ^ 1000 \<le> A" and km: "k < m" and m: "m < 65536"
  shows "- A / 2 < rnd_coord b64 A k m" and "rnd_coord b64 A k m < A / 2"
proof -
  have pos: "0 < A"
  proof -
    have "(0 :: real) < 1 / 2 ^ 1000" by simp
    with A show ?thesis by linarith
  qed
  define w where "w = A / (real m + 1)"
  define X where "X = (real k + 1) * A / (real m + 1)"
  define c where "c = rnd_coord b64 A k m"
  have lo: "w \<le> X" and hi: "X \<le> A - w"
    unfolding w_def X_def using exact_coord_bounds [OF pos km] by simp_all
  have w: "A / 65536 \<le> w"
    unfolding w_def using pos m by (rule cell_width)
  have err: "\<bar>c - (- A / 2 + X)\<bar> \<le> A / 2 ^ 34"
    unfolding c_def X_def using A km m by (rule b64_coord_error)
  show "- A / 2 < rnd_coord b64 A k m"
    unfolding c_def [symmetric] using err lo w pos by (simp only: pow_eval)
  show "rnd_coord b64 A k m < A / 2"
    unfolding c_def [symmetric] using err hi w pos by (simp only: pow_eval)
qed

lemma b64_coord_apart:
  fixes A :: real and k l m :: nat
  assumes A: "1 / 2 ^ 1000 \<le> A" and kl: "k < l" and lm: "l < m" and m: "m < 65536"
  shows "rnd_coord b64 A k m < rnd_coord b64 A l m"
proof -
  have pos: "0 < A"
  proof -
    have "(0 :: real) < 1 / 2 ^ 1000" by simp
    with A show ?thesis by linarith
  qed
  have km: "k < m" using kl lm by simp
  define w where "w = A / (real m + 1)"
  define X where "X = (real k + 1) * A / (real m + 1)"
  define Y where "Y = (real l + 1) * A / (real m + 1)"
  define c where "c = rnd_coord b64 A k m"
  define d where "d = rnd_coord b64 A l m"
  have m1: "0 < real m + 1" by linarith
  have w: "A / 65536 \<le> w"
    unfolding w_def using pos m by (rule cell_width)
  have "real k + 1 \<le> real l" using kl by simp
  then have "(real k + 1 + 1) * A \<le> (real l + 1) * A"
    using pos by (intro mult_right_mono) simp_all
  then have "(real k + 1) * A + 1 * A \<le> (real l + 1) * A"
    by (simp only: distrib_right)
  then have "((real k + 1) * A + 1 * A) / (real m + 1) \<le> (real l + 1) * A / (real m + 1)"
    using m1 by (intro divide_right_mono) simp_all
  then have gap: "X + w \<le> Y"
    by (simp add: X_def Y_def w_def add_divide_distrib)
  have ec: "\<bar>c - (- A / 2 + X)\<bar> \<le> A / 2 ^ 34"
    unfolding c_def X_def using A km m by (rule b64_coord_error)
  have ed: "\<bar>d - (- A / 2 + Y)\<bar> \<le> A / 2 ^ 34"
    unfolding d_def Y_def using A lm m by (rule b64_coord_error)
  show ?thesis
    unfolding c_def [symmetric] d_def [symmetric]
    using ec ed gap w pos by (simp only: pow_eval)
qed

lemma b64_coord_inj:
  fixes A :: real and k l m :: nat
  assumes A: "1 / 2 ^ 1000 \<le> A" and km: "k < m" and lm: "l < m" and m: "m < 65536"
    and eq: "rnd_coord b64 A k m = rnd_coord b64 A l m"
  shows "k = l"
proof (rule ccontr)
  assume "k \<noteq> l"
  then consider "k < l" | "l < k" by linarith
  then show False
  proof cases
    case 1
    from b64_coord_apart [OF A 1 lm m] eq show False by simp
  next
    case 2
    from b64_coord_apart [OF A 2 km m] eq show False by simp
  qed
qed

lemma grid_dims_small:
  assumes "N < 65536"
  shows "grid_rows N < 65536" and "grid_cols N < 65536"
proof -
  have "nat \<lfloor>sqrt (real N)\<rfloor> \<le> N" by (rule floor_sqrt_le)
  then show "grid_rows N < 65536"
    using assms by (simp add: grid_rows_def)
  have "\<lceil>real N / real (grid_rows N)\<rceil> \<le> int N"
    using grid_rows_pos by (rule ceil_div_le)
  then show "grid_cols N < 65536"
    using assms by (simp add: grid_cols_def)
qed

lemma b64_station_inside:
  assumes "1 / 2 ^ 1000 \<le> A" and "i < N" and "N < 65536"
  shows "inside_square A (rnd_station b64 N A i)"
  unfolding inside_square_def rnd_station_def Vector.sel
  using b64_coord_inside [OF assms(1) grid_col_less [OF assms(2)] grid_dims_small(2) [OF assms(3)]]
        b64_coord_inside [OF assms(1) grid_row_less [OF assms(2)] grid_dims_small(1) [OF assms(3)]]
  by blast

lemma b64_station_inj:
  assumes A: "1 / 2 ^ 1000 \<le> A" and i: "i < N" and j: "j < N" and N: "N < 65536"
    and eq: "rnd_station b64 N A i = rnd_station b64 N A j"
  shows "i = j"
proof -
  from eq have x: "rnd_coord b64 A (i mod grid_cols N) (grid_cols N) =
                   rnd_coord b64 A (j mod grid_cols N) (grid_cols N)"
    and y: "rnd_coord b64 A (i div grid_cols N) (grid_rows N) =
            rnd_coord b64 A (j div grid_cols N) (grid_rows N)"
    by (simp_all add: rnd_station_def)
  have "i mod grid_cols N = j mod grid_cols N"
    using A grid_col_less [OF i] grid_col_less [OF j] grid_dims_small(2) [OF N] x
    by (rule b64_coord_inj)
  moreover have "i div grid_cols N = j div grid_cols N"
    using A grid_row_less [OF i] grid_row_less [OF j] grid_dims_small(1) [OF N] y
    by (rule b64_coord_inj)
  ultimately show ?thesis
    by (metis div_mult_mod_eq)
qed

lemma b64_stations_distinct:
  assumes "1 / 2 ^ 1000 \<le> A" and "N < 65536"
  shows "distinct (map (rnd_station b64 N A) [0..<N])"
proof -
  have "inj_on (rnd_station b64 N A) (set [0..<N])"
    using b64_station_inj [OF assms(1) _ _ assms(2)] by (auto simp add: inj_on_def)
  then show ?thesis
    by (simp add: distinct_map)
qed

subsection \<open>The placement in binary64 at the smallest areas\<close>

lemma min_subnormal_pos: "0 < min_subnormal"
  by (simp add: min_subnormal_def)

lemma b64_near_zero:
  "b64 min_subnormal = min_subnormal"
  "b64 (2 * min_subnormal) = 2 * min_subnormal"
  "b64 (min_subnormal / 2) = 0"
  "b64 (min_subnormal / 3) = 0"
  "b64 (2 * min_subnormal / 3) = min_subnormal"
  using b64_subnormal [of 1] b64_subnormal [of 2] b64_subnormal [of "1 / 2"]
    b64_subnormal [of "1 / 3"] b64_subnormal [of "2 / 3"]
  by (simp_all add: round_even_values)

lemma grid_rows_4: "grid_rows 4 = 2"
proof -
  have "\<lfloor>sqrt (real (4 :: nat))\<rfloor> = int 2"
    by (rule floor_sqrt_nat) simp_all
  then show ?thesis by (simp add: grid_rows_def)
qed

lemma grid_cols_4: "grid_cols 4 = 2"
  by (simp add: grid_cols_def grid_rows_4)

lemma grid_rows_2: "grid_rows 2 = 1"
proof -
  have "\<lfloor>sqrt (real (2 :: nat))\<rfloor> = int 1"
    by (rule floor_sqrt_nat) simp_all
  then show ?thesis by (simp add: grid_rows_def)
qed

lemma grid_cols_2: "grid_cols 2 = 2"
  by (simp add: grid_cols_def grid_rows_2)

lemma collapsed_station: "rnd_station b64 4 min_subnormal i = Vector 0 0 30"
  by (simp add: rnd_station_def rnd_coord_def grid_rows_4 grid_cols_4 b64_near_zero b64_zero)

lemma edge_stations:
  "rnd_station b64 2 (2 * min_subnormal) 0 = Vector 0 0 30"
  "rnd_station b64 2 (2 * min_subnormal) (Suc 0) = Vector min_subnormal 0 30"
  by (simp_all add: rnd_station_def rnd_coord_def grid_rows_2 grid_cols_2 b64_near_zero b64_zero)

subsection \<open>The claim about the positions\<close>

text \<open>
  C5, as the specification states it, fails for sides in the subnormal range of
  \<^verbatim>\<open>double\<close>. With four stations and the side \<open>min_subnormal\<close> (\<^verbatim>\<open>5e-324\<close>) the half side
  and both spacings round to 0 and all four stations are at \<open>(0, 0, 30)\<close>; with two
  stations and twice that side station 1 is at \<open>x = A/2\<close>, on the border.
\<close>

theorem placement_subnormal_counterexample:
  "0 < min_subnormal
   \<and> mc_place_enbs_b64 4 min_subnormal =
       Inr [Vector 0 0 30, Vector 0 0 30, Vector 0 0 30, Vector 0 0 30]
   \<and> \<not> distinct [Vector 0 0 30, Vector 0 0 30, Vector 0 0 30, Vector 0 0 30]
   \<and> mc_place_enbs_b64 2 (2 * min_subnormal) = Inr [Vector 0 0 30, Vector min_subnormal 0 30]
   \<and> \<not> inside_square (2 * min_subnormal) (Vector min_subnormal 0 30)"
proof -
  have four: "[0..<4] = [0, 1, 2, 3 :: nat]" and two: "[0..<2] = [0, Suc 0]"
    by (simp_all add: upt_conv_Cons)
  have a: "mc_place_enbs_b64 4 min_subnormal =
      Inr [Vector 0 0 30, Vector 0 0 30, Vector 0 0 30, Vector 0 0 30]"
    by (simp add: mc_place_enbs_b64_def mc_place_enbs_rnd_stations four collapsed_station)
  have b: "mc_place_enbs_b64 2 (2 * min_subnormal) = Inr [Vector 0 0 30, Vector min_subnormal 0 30]"
    by (simp add: mc_place_enbs_b64_def mc_place_enbs_rnd_stations two edge_stations)
  have c: "\<not> inside_square (2 * min_subnormal) (Vector min_subnormal 0 30)"
    by (simp add: inside_square_def)
  show ?thesis
    using min_subnormal_pos a b c by simp
qed

text \<open>
  C5, amended. For a side \<open>A\<close> of at least \<open>2 ^ - 1000\<close> (about \<open>9.3e-302\<close>) the placement, computed
  in binary64, returns exactly \<open>nEnbs\<close> positions, each with \<open>x\<close> and \<open>y\<close> strictly between
  \<open>- A/2\<close> and \<open>A/2\<close>, and no two of them equal.
\<close>

theorem placement_binary64_inside_distinct:
  assumes "1 / 2 ^ 1000 \<le> A"
  shows "\<exists>ps. mc_place_enbs_b64 nEnbs A = Inr ps \<and> length ps = unat nEnbs
           \<and> (\<forall>p \<in> set ps. inside_square A p) \<and> distinct ps"
proof -
  let ?N = "unat nEnbs"
  let ?ps = "map (rnd_station b64 ?N A) [0..<?N]"
  have N: "?N < 65536" by (rule unat_lt_65536)
  have "\<forall>p \<in> set ?ps. inside_square A p"
    using b64_station_inside [OF assms _ N] by auto
  moreover have "distinct ?ps"
    using assms N by (rule b64_stations_distinct)
  moreover have "length ?ps = ?N"
    by simp
  moreover have "mc_place_enbs_b64 nEnbs A = Inr ?ps"
    by (simp add: mc_place_enbs_b64_def mc_place_enbs_rnd_stations)
  ultimately show ?thesis
    by blast
qed

text \<open>Seven stations in a square of side 2000 m.\<close>

theorem placement_binary64_inside_distinct_witness:
  "(1 :: real) / 2 ^ 1000 \<le> 2000
   \<and> (\<exists>ps. mc_place_enbs_b64 7 2000 = Inr ps \<and> length ps = 7
          \<and> list_all (inside_square 2000) ps \<and> distinct ps)"
proof -
  have h: "(1 :: real) / 2 ^ 1000 \<le> 2000"
    by (simp add: divide_le_eq)
  show ?thesis
    using h placement_binary64_inside_distinct [OF h, of 7]
    by (simp add: list_all_iff)
qed

section \<open>Properties of the traffic set-up\<close>

text \<open>
  Each client loop adds one application per counter value, from the counter's start up
  to the number of terminals, behind what the container already holds.
\<close>

lemma mc_client_loop_result:
  assumes "i \<le> nUes"
  shows "mc_client_loop nUes dlPort packetInterval packetSize i apps =
    apps @ map (\<lambda>k. \<lparr>node = k, remotePort = dlPort, MaxPackets = 0xFFFFFFFF,
             Interval = packetInterval, PacketSize = packetSize, startTime = 0, stopTime = 0\<rparr>)
        [unat i ..< unat nUes]"
  using assms
proof (induction "unat nUes - unat i" arbitrary: i apps)
  case 0
  then have "unat i = unat nUes"
    by (simp add: word_le_nat_alt)
  then have "\<not> i < nUes"
    by (simp add: word_less_nat_alt)
  then show ?case
    using \<open>unat i = unat nUes\<close>
    by (simp add: mc_client_loop.simps [of nUes dlPort packetInterval packetSize i apps])
next
  case (Suc k)
  from Suc.hyps(2) have less: "unat i < unat nUes" by linarith
  then have lt: "i < nUes" by (simp add: word_less_nat_alt)
  then have succ: "unat (i + 1) = unat i + 1" by (rule unat_succ_less)
  have le': "i + 1 \<le> nUes" using less succ by (simp add: word_le_nat_alt)
  have k: "k = unat nUes - unat (i + 1)" using Suc.hyps(2) succ by linarith
  have up: "[unat i ..< unat nUes] = unat i # [unat i + 1 ..< unat nUes]"
    using less by (simp add: upt_conv_Cons)
  show ?case
    by (subst mc_client_loop.simps)
       (simp only: lt if_True Suc.hyps(1) [OF k le'] succ up list.map append_assoc append.simps)
qed

lemma mc_clients_cbr:
  "mc_clients nUes simTime = map (cbr_flow (2 / 100) simTime) [0..<unat nUes]"
proof -
  have le: "(0 :: 32 word) \<le> nUes" by simp
  show ?thesis
    unfolding mc_clients_def Let_def mc_client_loop_result [OF le]
    by (simp add: cbr_flow_def)
qed

lemma sc_client_loop_result:
  assumes "i \<le> nUes"
  shows "sc_client_loop nUes dlPort packetInterval packetSize i apps =
    apps @ map (\<lambda>k. \<lparr>node = k, remotePort = dlPort, MaxPackets = 0xFFFFFFFF,
             Interval = packetInterval, PacketSize = packetSize, startTime = 0, stopTime = 0\<rparr>)
        [unat i ..< unat nUes]"
  using assms
proof (induction "unat nUes - unat i" arbitrary: i apps)
  case 0
  then have "unat i = unat nUes"
    by (simp add: word_le_nat_alt)
  then have "\<not> i < nUes"
    by (simp add: word_less_nat_alt)
  then show ?case
    using \<open>unat i = unat nUes\<close>
    by (simp add: sc_client_loop.simps [of nUes dlPort packetInterval packetSize i apps])
next
  case (Suc k)
  from Suc.hyps(2) have less: "unat i < unat nUes" by linarith
  then have lt: "i < nUes" by (simp add: word_less_nat_alt)
  then have succ: "unat (i + 1) = unat i + 1" by (rule unat_succ_less)
  have le': "i + 1 \<le> nUes" using less succ by (simp add: word_le_nat_alt)
  have k: "k = unat nUes - unat (i + 1)" using Suc.hyps(2) succ by linarith
  have up: "[unat i ..< unat nUes] = unat i # [unat i + 1 ..< unat nUes]"
    using less by (simp add: upt_conv_Cons)
  show ?case
    by (subst sc_client_loop.simps)
       (simp only: lt if_True Suc.hyps(1) [OF k le'] succ up list.map append_assoc append.simps)
qed

lemma sc_clients_cbr:
  "sc_clients nUes simTime = map (cbr_flow (1 / 10) simTime) [0..<unat nUes]"
proof -
  have le: "(0 :: 16 word) \<le> nUes" by simp
  show ?thesis
    unfolding sc_clients_def Let_def sc_client_loop_result [OF le]
    by (simp add: cbr_flow_def)
qed

lemma max_packets_greatest: "(m :: 32 word) \<le> 4294967295"
proof -
  have "(4294967295 :: 32 word) = - 1" by simp
  then show ?thesis by (simp only: word_order.extremum)
qed

text \<open>
  C9. Every terminal gets exactly one constant-bit-rate client: the container of the
  multi-cell program is the list of the flows of the terminals \<open>0, \<dots>, nUes - 1\<close> with
  an interval of 20 ms, the container of the single-cell program the same with 100 ms.
  Each flow has packets of 200 bytes, the packet count \<^verbatim>\<open>0xFFFFFFFF\<close> (no value of the
  attribute's 32 bits is larger, so the count never ends the flow before a larger one
  would), starts at 0.5 s and stops at the simulation horizon.
\<close>

theorem cbr_flow_per_terminal:
  "mc_clients nUes simTime = map (cbr_flow (20 / 1000) simTime) [0..<unat nUes]
   \<and> sc_clients nUes' simTime = map (cbr_flow (100 / 1000) simTime) [0..<unat nUes']
   \<and> length (mc_clients nUes simTime) = unat nUes
   \<and> length (sc_clients nUes' simTime) = unat nUes'
   \<and> node (cbr_flow interval simTime k) = k
   \<and> PacketSize (cbr_flow interval simTime k) = 200
   \<and> Interval (cbr_flow interval simTime k) = interval
   \<and> MaxPackets (cbr_flow interval simTime k) = 0xFFFFFFFF
   \<and> m \<le> MaxPackets (cbr_flow interval simTime k)
   \<and> startTime (cbr_flow interval simTime k) = 5 / 10
   \<and> stopTime (cbr_flow interval simTime k) = simTime"
  using max_packets_greatest [of m]
  by (simp add: mc_clients_cbr sc_clients_cbr cbr_flow_def)

text \<open>The containers for two terminals (multi-cell) and for one terminal (single-cell).\<close>

theorem cbr_flow_per_terminal_witness:
  "mc_clients 2 60 =
     [\<lparr>node = 0, remotePort = 1234, MaxPackets = 4294967295, Interval = 2 / 100,
       PacketSize = 200, startTime = 1 / 2, stopTime = 60\<rparr>,
      \<lparr>node = 1, remotePort = 1234, MaxPackets = 4294967295, Interval = 2 / 100,
       PacketSize = 200, startTime = 1 / 2, stopTime = 60\<rparr>]
   \<and> sc_clients 1 30 =
     [\<lparr>node = 0, remotePort = 1234, MaxPackets = 4294967295, Interval = 1 / 10,
       PacketSize = 200, startTime = 1 / 2, stopTime = 30\<rparr>]"
proof -
  have u: "[0..<2] = [0, Suc 0]"
    by (simp add: upt_conv_Cons)
  show ?thesis
    using cbr_flow_per_terminal [of 2 60 1] cbr_flow_per_terminal [of 2 30 1]
    by (simp add: u cbr_flow_def)
qed

section \<open>Properties of the technology profile\<close>

lemma set_bandwidth_abort:
  "(mc_set_bandwidth tech = Inl InvalidTech) = (tech \<noteq> ''4g'' \<and> tech \<noteq> ''5g'')"
  "(sc_set_bandwidth tech = Inl InvalidTech) = (tech \<noteq> ''4g'' \<and> tech \<noteq> ''5g'')"
  by (simp_all add: mc_set_bandwidth_def sc_set_bandwidth_def)

lemma mc_main_abort:
  "(mc_main nUes nEnbs T tech A run = Inl InvalidTech) = (tech \<noteq> ''4g'' \<and> tech \<noteq> ''5g'')"
  by (simp add: mc_main_def mc_set_bandwidth_def mc_place_enbs_b64_def
      mc_place_enbs_rnd_stations Let_def)

lemma mc_main_isl:
  "isl (mc_main nUes nEnbs T tech A run) = (tech \<noteq> ''4g'' \<and> tech \<noteq> ''5g'')"
  by (simp add: mc_main_def mc_set_bandwidth_def mc_place_enbs_b64_def
      mc_place_enbs_rnd_stations Let_def)

lemma sc_main_abort:
  "(sc_main nUes T tech run = Inl InvalidTech) = (tech \<noteq> ''4g'' \<and> tech \<noteq> ''5g'')"
  by (simp add: sc_main_def sc_set_bandwidth_def Let_def)

lemma sc_main_isl:
  "isl (sc_main nUes T tech run) = (tech \<noteq> ''4g'' \<and> tech \<noteq> ''5g'')"
  by (simp add: sc_main_def sc_set_bandwidth_def Let_def)

text \<open>
  C8. The selector has two recognised values: \<^verbatim>\<open>"4g"\<close> sets 50 resource blocks in both
  directions and a core link delay of 10 ms, \<^verbatim>\<open>"5g"\<close> sets 100 resource blocks and 2 ms.
  For every other value, and only then, each program ends in the abort \<open>InvalidTech\<close>:
  whatever the simulation \<open>run\<close> would return, it is not consulted and no report comes
  out.
\<close>

theorem tech_profile_selection:
  "mc_set_bandwidth ''4g'' = Inr \<lparr>DlBandwidth = 50, UlBandwidth = 50\<rparr>
   \<and> mc_p2p_link ''4g'' = \<lparr>DataRate = ''10Gbps'', Delay = ''10ms''\<rparr>
   \<and> mc_set_bandwidth ''5g'' = Inr \<lparr>DlBandwidth = 100, UlBandwidth = 100\<rparr>
   \<and> mc_p2p_link ''5g'' = \<lparr>DataRate = ''10Gbps'', Delay = ''2ms''\<rparr>
   \<and> sc_set_bandwidth ''4g'' = Inr \<lparr>DlBandwidth = 50, UlBandwidth = 50\<rparr>
   \<and> sc_p2p_link ''4g'' = \<lparr>DataRate = ''10Gbps'', Delay = ''10ms''\<rparr>
   \<and> sc_set_bandwidth ''5g'' = Inr \<lparr>DlBandwidth = 100, UlBandwidth = 100\<rparr>
   \<and> sc_p2p_link ''5g'' = \<lparr>DataRate = ''10Gbps'', Delay = ''2ms''\<rparr>
   \<and> (mc_main nUes nEnbs T tech A run = Inl InvalidTech) = (tech \<noteq> ''4g'' \<and> tech \<noteq> ''5g'')
   \<and> isl (mc_main nUes nEnbs T tech A run) = (tech \<noteq> ''4g'' \<and> tech \<noteq> ''5g'')
   \<and> (sc_main nUes' T tech run = Inl InvalidTech) = (tech \<noteq> ''4g'' \<and> tech \<noteq> ''5g'')
   \<and> isl (sc_main nUes' T tech run) = (tech \<noteq> ''4g'' \<and> tech \<noteq> ''5g'')"
  unfolding mc_main_abort mc_main_isl sc_main_abort sc_main_isl
  by (simp add: mc_set_bandwidth_def mc_p2p_link_def sc_set_bandwidth_def sc_p2p_link_def)

text \<open>Unrecognised selectors abort (the comparison is case-sensitive); the two recognised do not.\<close>

theorem tech_profile_selection_witness:
  "mc_main 200 7 60 ''6g'' 2000 (\<lambda>sc. []) = Inl InvalidTech
   \<and> sc_main 50 30 ''4G'' (\<lambda>sc. []) = Inl InvalidTech
   \<and> \<not> isl (mc_main 200 7 60 ''5g'' 2000 (\<lambda>sc. []))
   \<and> \<not> isl (sc_main 50 30 ''4g'' (\<lambda>sc. []))"
  using tech_profile_selection [of 200 7 60 "''6g''" 2000 "\<lambda>sc. []" 50]
        tech_profile_selection [of 200 7 60 "''4G''" 2000 "\<lambda>sc. []" 50]
        tech_profile_selection [of 200 7 60 "''5g''" 2000 "\<lambda>sc. []" 50]
        tech_profile_selection [of 200 7 30 "''4g''" 2000 "\<lambda>sc. []" 50]
        tech_profile_selection [of 200 7 30 "''6g''" 2000 "\<lambda>sc. []" 50]
        tech_profile_selection [of 200 7 30 "''4G''" 2000 "\<lambda>sc. []" 50]
  by simp

end
